theory Spec2Isabelle
  imports Complex_Main "HOL-Library.Sublist"
begin

text \<open>
  A model of the agent pipeline: the deterministic filter extractors and the filter
  builders of \<open>scripts/metadata-filters.ts\<close>, the stages Preprocess, ExtractFilters, Retrieve,
  Generate and Complete, and the tracing adapter. The providers, the vector store, the
  tracing library, the framework's \<open>emit\<close> and the clock are parameters of the functions
  that call them. The definitions come first, the theorems after them.
\<close>

section \<open>JavaScript strings\<close>

text \<open>
  Query strings are modelled as \<^typ>\<open>string\<close>. \<open>String.prototype.toLowerCase\<close> is modelled
  on the ASCII letters (every other character is left as it is), and
  \<open>String.prototype.includes\<close> as the search for a contiguous occurrence.
\<close>

definition toLowerChar :: "char \<Rightarrow> char" where
  "toLowerChar c =
     (case map_of (zip ''ABCDEFGHIJKLMNOPQRSTUVWXYZ'' ''abcdefghijklmnopqrstuvwxyz'') c of
        Some l \<Rightarrow> l
      | None \<Rightarrow> c)"

definition toLowerCase :: "string \<Rightarrow> string" where
  "toLowerCase s = map toLowerChar s"

fun str_includes :: "string \<Rightarrow> string \<Rightarrow> bool" where
  "str_includes [] sub = (sub = [])"
| "str_includes (c # cs) sub = (prefix sub (c # cs) \<or> str_includes cs sub)"

section \<open>JavaScript values and objects\<close>

text \<open>
  A \<open>Record<string, any>\<close> is an association list in insertion order: writing a property
  that exists replaces its value in place, writing a new one appends it. A property that
  is absent reads as \<open>undefined\<close>. Numbers are carried as reals; the model never does
  arithmetic on them beyond the month index.
\<close>

datatype jsval =
    JUndefined
  | JNull
  | JBool bool
  | JNum real
  | JStr string
  | JArr "jsval list"
  | JObj "(string \<times> jsval) list"

type_synonym obj = "(string \<times> jsval) list"

fun truthy :: "jsval \<Rightarrow> bool" where
  "truthy JUndefined = False"
| "truthy JNull = False"
| "truthy (JBool b) = b"
| "truthy (JNum n) = (n \<noteq> 0)"
| "truthy (JStr s) = (s \<noteq> [])"
| "truthy (JArr xs) = True"
| "truthy (JObj ob) = True"

definition obj_get :: "obj \<Rightarrow> string \<Rightarrow> jsval" where
  "obj_get ob k = (case map_of ob k of Some v \<Rightarrow> v | None \<Rightarrow> JUndefined)"

fun obj_set :: "obj \<Rightarrow> string \<Rightarrow> jsval \<Rightarrow> obj" where
  "obj_set [] k v = [(k, v)]"
| "obj_set ((k', v') # ob) k v =
     (if k' = k then (k, v) # ob else (k', v') # obj_set ob k v)"

definition object_assign :: "obj \<Rightarrow> obj \<Rightarrow> obj" where
  "object_assign target source = foldl (\<lambda>t (k, v). obj_set t k v) target source"

definition object_keys :: "obj \<Rightarrow> string list" where
  "object_keys ob = map fst ob"

text \<open>Reading a field of a value that is an object or \<open>null\<close> (the extractors' results).\<close>

definition filter_field :: "obj option \<Rightarrow> string \<Rightarrow> jsval" where
  "filter_field r k = (case r of None \<Rightarrow> JUndefined | Some ob \<Rightarrow> obj_get ob k)"

section \<open>The deterministic metadata extractor (scripts/metadata-filters.ts)\<close>

definition environments :: "string list" where
  "environments = [''production'', ''development'', ''staging'', ''test'']"

definition statuses :: "string list" where
  "statuses = [''success'', ''failed'', ''error'', ''pending'']"

text \<open>
  The loop \<open>for (const kw of kws) { if (query.toLowerCase().includes(kw)) filters[field] = kw }\<close>:
  it has no \<open>break\<close>, so every keyword of the list is tried.
\<close>

fun scanKeywords :: "string \<Rightarrow> string \<Rightarrow> string list \<Rightarrow> obj \<Rightarrow> obj" where
  "scanKeywords query field [] filters = filters"
| "scanKeywords query field (kw # kws) filters =
     scanKeywords query field kws
       (if str_includes (toLowerCase query) kw then obj_set filters field (JStr kw)
        else filters)"

definition extractMetadataFilters :: "string \<Rightarrow> obj option" where
  "extractMetadataFilters query =
     (let filters = scanKeywords query ''environment'' environments [];
          filters = scanKeywords query ''status'' statuses filters;
          filters =
            (if str_includes (toLowerCase query) ''correct''
             then obj_set filters ''is_correct'' (JBool True)
             else if str_includes (toLowerCase query) ''incorrect''
                     \<or> str_includes (toLowerCase query) ''wrong''
             then obj_set filters ''is_correct'' (JBool False)
             else filters)
      in if length (object_keys filters) > 0 then Some filters else None)"

section \<open>The deterministic date extractor (scripts/metadata-filters.ts)\<close>

text \<open>
  The two regular expressions of \<open>extractDateFilters\<close> have a fixed length, so a pattern is
  a list of character classes. \<open>regexFirst p s\<close> is \<open>s.match(p)\<close>: the leftmost match, or
  \<open>None\<close> for \<open>null\<close>.
\<close>

datatype pat = PDigit | PLit char

definition isDigit :: "char \<Rightarrow> bool" where
  "isDigit c = (c \<in> set ''0123456789'')"

definition isWordChar :: "char \<Rightarrow> bool" where
  "isWordChar c =
     (c \<in> set ''abcdefghijklmnopqrstuvwxyzABCDEFGHIJKLMNOPQRSTUVWXYZ0123456789_'')"

fun matchesPat :: "pat \<Rightarrow> char \<Rightarrow> bool" where
  "matchesPat PDigit c = isDigit c"
| "matchesPat (PLit l) c = (c = l)"

fun matchAt :: "pat list \<Rightarrow> string \<Rightarrow> bool" where
  "matchAt [] s = True"
| "matchAt (p # ps) [] = False"
| "matchAt (p # ps) (c # cs) = (matchesPat p c \<and> matchAt ps cs)"

fun regexFirst :: "pat list \<Rightarrow> string \<Rightarrow> string option" where
  "regexFirst p [] = (if matchAt p [] then Some [] else None)"
| "regexFirst p (c # cs) =
     (if matchAt p (c # cs) then Some (take (length p) (c # cs)) else regexFirst p cs)"

text \<open>The pattern \<open>/(\d{4}-\d{2}-\d{2})/\<close>.\<close>

definition exactDatePattern :: "pat list" where
  "exactDatePattern =
     [PDigit, PDigit, PDigit, PDigit, PLit CHR ''-'', PDigit, PDigit, PLit CHR ''-'',
      PDigit, PDigit]"

text \<open>
  The pattern \<open>/\b(20\d{2})\b/\<close>. The match starts and ends with a word character, so
  the word boundary before it asks for no word character in front (\<open>prev\<close> is the
  character in front, \<open>None\<close> at the start of the string), and the one after it for no
  word character behind.
\<close>

definition yearPattern :: "pat list" where
  "yearPattern = [PLit CHR ''2'', PLit CHR ''0'', PDigit, PDigit]"

definition boundaryBefore :: "char option \<Rightarrow> bool" where
  "boundaryBefore prev = (case prev of None \<Rightarrow> True | Some p \<Rightarrow> \<not> isWordChar p)"

definition boundaryAfter :: "string \<Rightarrow> bool" where
  "boundaryAfter rest = (case rest of [] \<Rightarrow> True | n # ns \<Rightarrow> \<not> isWordChar n)"

definition yearHere :: "char option \<Rightarrow> string \<Rightarrow> bool" where
  "yearHere prev s =
     (boundaryBefore prev \<and> matchAt yearPattern s \<and> boundaryAfter (drop 4 s))"

fun yearMatch :: "char option \<Rightarrow> string \<Rightarrow> string option" where
  "yearMatch prev [] = None"
| "yearMatch prev (c # cs) =
     (if yearHere prev (c # cs) then Some (take 4 (c # cs)) else yearMatch (Some c) cs)"

definition digitValue :: "char \<Rightarrow> nat" where
  "digitValue c =
     (case map_of (zip ''0123456789'' [0, 1, 2, 3, 4, 5, 6, 7, 8, 9]) c of
        Some d \<Rightarrow> d
      | None \<Rightarrow> 0)"

text \<open>\<open>parseInt\<close> on a string of decimal digits, which is all the extractor gives it.\<close>

definition parseInt :: "string \<Rightarrow> nat" where
  "parseInt s = foldl (\<lambda>n c. 10 * n + digitValue c) 0 s"

text \<open>
  The dates that the branches for \<open>yesterday\<close>, \<open>today\<close> and \<open>last week\<close> compute from
  \<open>new Date()\<close>, as ISO date strings: the clock is an input of the model.
\<close>

record clock =
  today :: string
  yesterday :: string
  lastWeekStart :: string

definition monthNames :: "string list" where
  "monthNames =
     [''january'', ''february'', ''march'', ''april'', ''may'', ''june'',
      ''july'', ''august'', ''september'', ''october'', ''november'', ''december'']"

text \<open>The loop over \<open>monthNames\<close> from index \<open>i\<close> on; it returns at the first name found.\<close>

fun monthLoop :: "string \<Rightarrow> string list \<Rightarrow> nat \<Rightarrow> obj option" where
  "monthLoop query [] i = None"
| "monthLoop query (m # ms) i =
     (if str_includes (toLowerCase query) m
      then
        (let filters = obj_set [] ''month'' (JNum (real (i + 1)));
             filters =
               (case yearMatch None query of
                  Some y \<Rightarrow> obj_set filters ''year'' (JNum (real (parseInt y)))
                | None \<Rightarrow> filters)
         in Some filters)
      else monthLoop query ms (i + 1))"

definition extractDateFilters :: "clock \<Rightarrow> string \<Rightarrow> obj option" where
  "extractDateFilters clk query =
     (case regexFirst exactDatePattern query of
        Some d \<Rightarrow> Some (obj_set [] ''date_str'' (JStr d))
      | None \<Rightarrow>
          if str_includes (toLowerCase query) ''yesterday''
          then Some (obj_set [] ''date_str'' (JStr (yesterday clk)))
          else if str_includes (toLowerCase query) ''today''
          then Some (obj_set [] ''date_str'' (JStr (today clk)))
          else if str_includes (toLowerCase query) ''last week''
          then Some [(''dateRange'',
                      JObj [(''start'', JStr (lastWeekStart clk)), (''end'', JStr (today clk))])]
          else
            (case monthLoop query monthNames 0 of
               Some filters \<Rightarrow> Some filters
             | None \<Rightarrow>
                 (case yearMatch None query of
                    Some y \<Rightarrow> Some (obj_set [] ''year'' (JNum (real (parseInt y))))
                  | None \<Rightarrow> None)))"

subsection \<open>What a query contains\<close>

text \<open>
  \<open>occursAt q n d\<close>: the string \<open>d\<close> occurs in \<open>q\<close> at offset \<open>n\<close>. An ISO date is a string
  of the shape \<open>YYYY-MM-DD\<close>; a year is a string \<open>20dd\<close> standing between word boundaries.
\<close>

definition occursAt :: "string \<Rightarrow> nat \<Rightarrow> string \<Rightarrow> bool" where
  "occursAt q n d = (n + length d \<le> length q \<and> take (length d) (drop n q) = d)"

definition isoDate :: "string \<Rightarrow> bool" where
  "isoDate d = (length d = 10 \<and> matchAt exactDatePattern d)"

definition hasIsoDate :: "string \<Rightarrow> bool" where
  "hasIsoDate q = (\<exists>n d. occursAt q n d \<and> isoDate d)"

definition firstIsoDate :: "string \<Rightarrow> string \<Rightarrow> bool" where
  "firstIsoDate q d =
     (\<exists>n. occursAt q n d \<and> isoDate d \<and> (\<forall>m d'. occursAt q m d' \<and> isoDate d' \<longrightarrow> n \<le> m))"

definition yearAt :: "string \<Rightarrow> nat \<Rightarrow> string \<Rightarrow> bool" where
  "yearAt q n y =
     (occursAt q n y \<and> length y = 4 \<and> matchAt yearPattern y
      \<and> (n = 0 \<or> \<not> isWordChar (q ! (n - 1)))
      \<and> (n + 4 = length q \<or> \<not> isWordChar (q ! (n + 4))))"

definition hasYear :: "string \<Rightarrow> bool" where
  "hasYear q = (\<exists>n y. yearAt q n y)"

definition firstYear :: "string \<Rightarrow> string \<Rightarrow> bool" where
  "firstYear q y = (\<exists>n. yearAt q n y \<and> (\<forall>m y'. yearAt q m y' \<longrightarrow> n \<le> m))"

definition hasRelative :: "string \<Rightarrow> bool" where
  "hasRelative q =
     (str_includes (toLowerCase q) ''yesterday'' \<or> str_includes (toLowerCase q) ''today'')"

definition hasRange :: "string \<Rightarrow> bool" where
  "hasRange q = str_includes (toLowerCase q) ''last week''"

definition hasMonth :: "string \<Rightarrow> bool" where
  "hasMonth q = (\<exists>i < length monthNames. str_includes (toLowerCase q) (monthNames ! i))"

definition firstMonth :: "string \<Rightarrow> nat \<Rightarrow> bool" where
  "firstMonth q i =
     (i < length monthNames \<and> str_includes (toLowerCase q) (monthNames ! i)
      \<and> (\<forall>j < i. \<not> str_includes (toLowerCase q) (monthNames ! j)))"

text \<open>The character in front of offset \<open>n\<close> of a string, if there is one.\<close>

definition prevChar :: "string \<Rightarrow> nat \<Rightarrow> char option" where
  "prevChar q n = (if n = 0 then None else Some (q ! (n - 1)))"

section \<open>Errors and the stages' shared shape\<close>

text \<open>
  A rejected promise or a \<open>throw\<close> is a value of \<open>js_error\<close>: an \<open>Error\<close> with its message,
  a \<open>TypeError\<close> (also an \<open>Error\<close>) with its message, or a thrown value that is no \<open>Error\<close>.
  A computation that may throw returns \<open>js_error + 'a\<close>.
\<close>

datatype js_error = Error string | TypeError string | ThrownValue jsval

definition bind :: "js_error + 'a \<Rightarrow> ('a \<Rightarrow> js_error + 'b) \<Rightarrow> js_error + 'b" where
  "bind m f = (case m of Inl e \<Rightarrow> Inl e | Inr v \<Rightarrow> f v)"

text \<open>
  Reading a property. On \<open>undefined\<close> and \<open>null\<close> it throws a \<open>TypeError\<close>, with the
  message that Node gives; on a primitive or an array it gives \<open>undefined\<close> for every key
  read in this program (none is \<open>length\<close> or an index).
\<close>

definition cannotRead :: "string \<Rightarrow> string \<Rightarrow> js_error" where
  "cannotRead what k =
     TypeError (''Cannot read properties of '' @ what @ '' (reading '' @ [CHR 0x27] @ k
                @ [CHR 0x27] @ '')'')"

fun js_get :: "jsval \<Rightarrow> string \<Rightarrow> js_error + jsval" where
  "js_get JUndefined k = Inl (cannotRead ''undefined'' k)"
| "js_get JNull k = Inl (cannotRead ''null'' k)"
| "js_get (JObj ob) k = Inr (obj_get ob k)"
| "js_get v k = Inr JUndefined"

text \<open>The same read where the source has checked the value to be truthy first.\<close>

definition js_prop :: "jsval \<Rightarrow> string \<Rightarrow> jsval" where
  "js_prop v k = (case v of JObj ob \<Rightarrow> obj_get ob k | _ \<Rightarrow> JUndefined)"

record context_item =
  item_input :: jsval
  item_output :: jsval
  item_created_at :: jsval
  item_score :: jsval
  item_problem :: jsval
  item_solution :: jsval
  item_type :: jsval

text \<open>
  The payload carried between the stages. A field that a stage leaves out of the object
  it emits is \<open>JUndefined\<close> or \<open>None\<close>. The field \<open>handidFlowId\<close> is the property
  \<open>_handidFlowId\<close>, the correlation id.
\<close>

record payload =
  originalMessage :: string
  processedMessage :: string
  timestamp :: string
  dateFilters :: jsval
  metadataFilters :: jsval
  context_items :: "context_item list option"
  response :: "string option"
  error :: "string option"
  handidFlowId :: "string option"

record event =
  topic :: string
  data :: payload

text \<open>
  Every stage has the shape \<open>try { ...; await emit(ev) } catch (error) { await emit(fb) }\<close>.
  \<open>body\<close> is the outcome of the \<open>try\<close> block up to its \<open>emit\<close>, \<open>emit\<close> tells whether a call
  of the framework's \<open>emit\<close> throws, and \<open>fallback\<close> builds the event of the \<open>catch\<close> block.
  The result is the list of the calls of \<open>emit\<close> in order, and the error the handler
  ends with, if any.
\<close>

definition emitWithFallback ::
  "(event \<Rightarrow> js_error option) \<Rightarrow> js_error + event \<Rightarrow> (js_error \<Rightarrow> event)
     \<Rightarrow> event list \<times> js_error option" where
  "emitWithFallback emit body fallback =
     (case body of
        Inl e \<Rightarrow> ([fallback e], emit (fallback e))
      | Inr ev \<Rightarrow>
          (case emit ev of
             None \<Rightarrow> ([ev], None)
           | Some e \<Rightarrow> ([ev, fallback e], emit (fallback e))))"

section \<open>The tracing adapter (utils/handit-tracing.ts)\<close>

definition preprocessMessageNode :: string where
  "preprocessMessageNode = ''metaAgentK40-toolpreprocessp6''"

definition llmFiltersExtractionNode :: string where
  "llmFiltersExtractionNode = ''metaAgentK40-llmFiltersrv''"

definition ragRetrievalNode :: string where
  "ragRetrievalNode = ''metaAgentK40-toolragRetrievvz''"

definition responseGenerationNode :: string where
  "responseGenerationNode = ''metaAgentK40-responseGecp''"

text \<open>
  \<open>traceAgentNode\<close> belongs to the tracing library and is a parameter. The wrapper hands
  it the callback; the property \<open>_handidFlowId\<close> that the wrapper writes on a result that is
  an object is not part of the model, since no stage reads it from a result.
\<close>

definition traceWithHandit ::
  "(string \<Rightarrow> string option \<Rightarrow> ('a \<Rightarrow> js_error + 'b) \<Rightarrow> 'a \<Rightarrow> js_error + 'b)
     \<Rightarrow> string \<Rightarrow> string option \<Rightarrow> ('a \<Rightarrow> js_error + 'b) \<Rightarrow> 'a \<Rightarrow> js_error + 'b" where
  "traceWithHandit traceAgentNode agentNodeId flowId callback =
     traceAgentNode agentNodeId flowId (\<lambda>args. callback args)"

text \<open>A tracing library whose traced function returns only what the callback returned.\<close>

definition faithfulTracer ::
  "(string \<Rightarrow> string option \<Rightarrow> ('a \<Rightarrow> js_error + 'b) \<Rightarrow> 'a \<Rightarrow> js_error + 'b) \<Rightarrow> bool" where
  "faithfulTracer traceAgentNode =
     (\<forall>node flowId callback args r.
        traceAgentNode node flowId callback args = Inr r \<longrightarrow> callback args = Inr r)"

text \<open>The tracing library that calls the callback and hands back its outcome.\<close>

definition plainTracer ::
  "string \<Rightarrow> string option \<Rightarrow> ('a \<Rightarrow> js_error + 'b) \<Rightarrow> 'a \<Rightarrow> js_error + 'b" where
  "plainTracer node flowId callback = callback"

text \<open>
  The state that closing a session touches: the lines written to the console, and the
  requests sent to the tracing backend (the \<open>externalId\<close> of each).
\<close>

record tracing_state =
  console :: "string list"
  endRequests :: "string list"

text \<open>
  \<open>endAgentTracing\<close> is the library call; its outcome may depend on the requests made
  before. The result is the new state and the error the function ends with, if any.
\<close>

definition endAgentTracingHandit ::
  "(string list \<Rightarrow> string \<Rightarrow> js_error option) \<Rightarrow> string option \<Rightarrow> tracing_state
     \<Rightarrow> tracing_state \<times> js_error option" where
  "endAgentTracingHandit endAgentTracing flowId st =
     (case flowId of
        None \<Rightarrow> (st, None)
      | Some f \<Rightarrow>
          if f = [] then (st, None)
          else
            (let st = st\<lparr>console := console st @ [''[Handit] Ending tracing session for flow: '' @ f]\<rparr>;
                 outcome = endAgentTracing (endRequests st) f;
                 st = st\<lparr>endRequests := endRequests st @ [f]\<rparr>
             in case outcome of
                  None \<Rightarrow> (st, None)
                | Some e \<Rightarrow>
                    (st\<lparr>console := console st
                          @ [''[Handit] Error ending tracing session for flow '' @ f @ '':'']\<rparr>,
                     None)))"

section \<open>The Preprocess stage (steps/preprocess-message.step.ts)\<close>

text \<open>
  The characters that \<open>String.prototype.trim\<close> strips, among the characters below 256:
  tab, line feed, vertical tab, form feed, carriage return, space and the no-break space.
\<close>

definition isSpace :: "char \<Rightarrow> bool" where
  "isSpace c =
     (c \<in> set [CHR '' '', CHR 0x09, CHR 0x0A, CHR 0x0B, CHR 0x0C, CHR 0x0D, CHR 0xA0])"

definition trim :: "string \<Rightarrow> string" where
  "trim s = rev (dropWhile isSpace (rev (dropWhile isSpace s)))"

record message_input =
  message :: string
  sent_at :: "string option"

text \<open>
  \<open>newFlowId\<close> is what \<open>generateFlowId()\<close> returns in this run, \<open>nowISO\<close> what
  \<open>new Date().toISOString()\<close> returns.
\<close>

record preprocess_env =
  newFlowId :: string
  nowISO :: string
  preprocess_emit :: "event \<Rightarrow> js_error option"

definition preprocessMessage :: "string \<Rightarrow> js_error + string" where
  "preprocessMessage msg = Inr (trim msg)"

definition preprocessHandler ::
  "preprocess_env
     \<Rightarrow> (string \<Rightarrow> string option \<Rightarrow> (string \<Rightarrow> js_error + string) \<Rightarrow> string \<Rightarrow> js_error + string)
     \<Rightarrow> message_input \<Rightarrow> event list \<times> js_error option" where
  "preprocessHandler env traceAgentNode inp =
     (let flowId = newFlowId env;
          stamp = (case sent_at inp of
                     Some t \<Rightarrow> if t \<noteq> [] then t else nowISO env
                   | None \<Rightarrow> nowISO env);
          body =
            bind (traceWithHandit traceAgentNode preprocessMessageNode (Some flowId)
                    preprocessMessage (message inp))
              (\<lambda>processed.
                 Inr \<lparr>topic = ''preprocess-complete'',
                      data = \<lparr>originalMessage = message inp, processedMessage = processed,
                              timestamp = stamp, dateFilters = JUndefined,
                              metadataFilters = JUndefined, context_items = None,
                              response = None, error = None, handidFlowId = Some flowId\<rparr>\<rparr>)
      in emitWithFallback (preprocess_emit env) body
           (\<lambda>e. \<lparr>topic = ''preprocess-complete'',
                  data = \<lparr>originalMessage = message inp, processedMessage = message inp,
                          timestamp = stamp, dateFilters = JUndefined,
                          metadataFilters = JUndefined, context_items = None,
                          response = None, error = None, handidFlowId = Some flowId\<rparr>\<rparr>))"

section \<open>The provider's chat completion\<close>

text \<open>
  The completion that \<open>openai.chat.completions.create\<close> resolves to, as far as the stages
  read it: the list \<open>choices\<close>, each choice's optional \<open>message\<close>, and its \<open>content\<close>, a
  string or \<open>null\<close>.
\<close>

record chat_message =
  content :: "string option"

record chat_choice =
  choice_message :: "chat_message option"

record chat_completion =
  choices :: "chat_choice list"

section \<open>The ExtractFilters stage (the LLM filter extraction step, in examples/traced-agent.ts)\<close>

text \<open>
  The value \<open>extractFilters\<close> returns, through the three properties that the handler reads
  from it.
\<close>

record filter_response =
  fr_dateFilters :: jsval
  fr_metadataFilters :: jsval
  extractedQuery :: string

text \<open>
  \<open>openaiApiKey\<close> is \<open>process.env.OPENAI_API_KEY\<close>; \<open>extraction_create\<close> is the provider call
  with the system prompt and the query; \<open>json_parse\<close> is \<open>JSON.parse\<close>.
\<close>

record extraction_env =
  openaiApiKey :: "string option"
  extraction_create :: "string \<Rightarrow> string \<Rightarrow> js_error + chat_completion"
  json_parse :: "string \<Rightarrow> js_error + jsval"
  extraction_emit :: "event \<Rightarrow> js_error option"

definition filterFallback :: "string \<Rightarrow> filter_response" where
  "filterFallback msg =
     \<lparr>fr_dateFilters = JUndefined, fr_metadataFilters = JUndefined, extractedQuery = msg\<rparr>"

text \<open>
  \<open>answer.extractedQuery = msg\<close> on the parsed answer. On an object it sets the property;
  on an array it adds it, and the other two properties read as \<open>undefined\<close>; on \<open>null\<close> and
  on a primitive it throws a \<open>TypeError\<close> (the module is strict code).
\<close>

definition setExtractedQuery :: "jsval \<Rightarrow> string \<Rightarrow> js_error + filter_response" where
  "setExtractedQuery answer msg =
     (case answer of
        JObj ob \<Rightarrow>
          Inr \<lparr>fr_dateFilters = obj_get ob ''dateFilters'',
               fr_metadataFilters = obj_get ob ''metadataFilters'', extractedQuery = msg\<rparr>
      | JArr xs \<Rightarrow>
          Inr \<lparr>fr_dateFilters = JUndefined, fr_metadataFilters = JUndefined,
               extractedQuery = msg\<rparr>
      | _ \<Rightarrow> Inl (TypeError ''Cannot create property extractedQuery''))"

text \<open>The inner \<open>try\<close> block around \<open>JSON.parse\<close> and the assignment, with its \<open>catch\<close>.\<close>

definition parseAnswer :: "extraction_env \<Rightarrow> string \<Rightarrow> string \<Rightarrow> filter_response" where
  "parseAnswer env msg text =
     (case bind (json_parse env text) (\<lambda>answer. setExtractedQuery answer msg) of
        Inr answer \<Rightarrow> answer
      | Inl parseError \<Rightarrow> filterFallback msg)"

definition extractFilters ::
  "extraction_env \<Rightarrow> string \<times> string \<Rightarrow> js_error + filter_response" where
  "extractFilters env args =
     (case args of (msg, prompt) \<Rightarrow>
        bind (extraction_create env prompt
                (''Extract filters from this query: '' @ [CHR 0x22] @ msg @ [CHR 0x22]))
          (\<lambda>response.
             case choices response of
               [] \<Rightarrow> Inr (filterFallback msg)
             | c # cs \<Rightarrow>
                 (case choice_message c of
                    None \<Rightarrow> Inr (filterFallback msg)
                  | Some m \<Rightarrow>
                      Inr (parseAnswer env msg
                             (case content m of
                                Some s \<Rightarrow> if s \<noteq> [] then s else ''{}''
                              | None \<Rightarrow> ''{}'')))))"

definition extractionHandler ::
  "extraction_env \<Rightarrow> string
     \<Rightarrow> (string \<Rightarrow> string option \<Rightarrow> (string \<times> string \<Rightarrow> js_error + filter_response)
          \<Rightarrow> string \<times> string \<Rightarrow> js_error + filter_response)
     \<Rightarrow> payload \<Rightarrow> event list \<times> js_error option" where
  "extractionHandler env systemPrompt traceAgentNode inp =
     (let flowId = handidFlowId inp;
          body =
            bind (case openaiApiKey env of
                    None \<Rightarrow> Inl (Error ''OpenAI API key not found in environment variables'')
                  | Some k \<Rightarrow>
                      if k = [] then Inl (Error ''OpenAI API key not found in environment variables'')
                      else Inr k)
              (\<lambda>key.
                 bind (traceWithHandit traceAgentNode llmFiltersExtractionNode flowId
                         (extractFilters env) (processedMessage inp, systemPrompt))
                   (\<lambda>extractedFilters.
                      Inr \<lparr>topic = ''fetch-context'',
                           data = \<lparr>originalMessage = originalMessage inp,
                                   processedMessage =
                                     (if extractedQuery extractedFilters \<noteq> []
                                      then extractedQuery extractedFilters
                                      else processedMessage inp),
                                   timestamp = timestamp inp,
                                   dateFilters = fr_dateFilters extractedFilters,
                                   metadataFilters = fr_metadataFilters extractedFilters,
                                   context_items = None, response = None, error = None,
                                   handidFlowId = flowId\<rparr>\<rparr>))
      in emitWithFallback (extraction_emit env) body
           (\<lambda>e. \<lparr>topic = ''fetch-context'',
                  data = \<lparr>originalMessage = originalMessage inp,
                          processedMessage = processedMessage inp,
                          timestamp = timestamp inp, dateFilters = JUndefined,
                          metadataFilters = JUndefined, context_items = None,
                          response = None, error = None, handidFlowId = flowId\<rparr>\<rparr>))"

section \<open>The Retrieve stage (steps/pinecone-retrieval.step.ts)\<close>

text \<open>
  What the stage reads of the providers' answers: of the embedding response the list
  \<open>data\<close> with each element's \<open>embedding\<close>; of the query response the optional list
  \<open>matches\<close>, and of each match its \<open>metadata\<close> and its \<open>score\<close>.
\<close>

record scored_match =
  match_metadata :: jsval
  match_score :: jsval

record query_response =
  matches :: "scored_match list option"

record retrieval_env =
  embeddings_create :: "string \<Rightarrow> js_error + real list list"
  index_query :: "real list \<Rightarrow> jsval \<Rightarrow> js_error + query_response"
  retrieval_emit :: "event \<Rightarrow> js_error option"

definition generateEmbedding :: "retrieval_env \<Rightarrow> string \<Rightarrow> js_error + real list" where
  "generateEmbedding env text =
     bind (embeddings_create env text)
       (\<lambda>data.
          case data of
            [] \<Rightarrow> Inl (cannotRead ''undefined'' ''embedding'')
          | d # ds \<Rightarrow> Inr d)"

text \<open>The statement \<open>if (source.k) filters.k = source.k\<close>.\<close>

definition copyTruthy :: "jsval \<Rightarrow> string \<Rightarrow> obj \<Rightarrow> obj" where
  "copyTruthy source k filters =
     (if truthy (js_prop source k) then obj_set filters k (js_prop source k) else filters)"

text \<open>The stage's own \<open>buildFilterExpression\<close>.\<close>

definition retrievalBuildFilterExpression :: "jsval \<Rightarrow> jsval \<Rightarrow> jsval" where
  "retrievalBuildFilterExpression dateFilters' metadataFilters' =
     (let filters = [];
          filters =
            (if truthy dateFilters'
             then
               (let filters = copyTruthy dateFilters' ''year'' filters;
                    filters = copyTruthy dateFilters' ''month'' filters;
                    filters = copyTruthy dateFilters' ''day'' filters
                in copyTruthy dateFilters' ''date_str'' filters)
             else filters);
          filters =
            (if truthy metadataFilters'
             then
               (let filters = copyTruthy metadataFilters' ''environment'' filters
                in copyTruthy metadataFilters' ''status'' filters)
             else filters)
      in if length (object_keys filters) > 0
         then JObj [(''$and'', JArr (map (\<lambda>(key, value). JObj [(key, value)]) filters))]
         else JUndefined)"

definition toContextItem :: "scored_match \<Rightarrow> js_error + context_item" where
  "toContextItem m =
     (let metadata = match_metadata m
      in bind (js_get metadata ''input'') (\<lambda>i.
         bind (js_get metadata ''output'') (\<lambda>out.
         bind (js_get metadata ''created_at'') (\<lambda>created.
         bind (js_get metadata ''problem'') (\<lambda>p.
         bind (js_get metadata ''solution'') (\<lambda>s.
         bind (js_get metadata ''type'') (\<lambda>t.
           Inr \<lparr>item_input = i, item_output = out, item_created_at = created,
                item_score = match_score m, item_problem = p, item_solution = s,
                item_type = t\<rparr>)))))))"

fun mapMatches :: "scored_match list \<Rightarrow> js_error + context_item list" where
  "mapMatches [] = Inr []"
| "mapMatches (m # ms) =
     bind (toContextItem m) (\<lambda>item. bind (mapMatches ms) (\<lambda>items. Inr (item # items)))"

text \<open>The \<open>try\<close> block of the handler up to its \<open>emit\<close>: the context it retrieves.\<close>

definition retrieveContext ::
  "retrieval_env
     \<Rightarrow> (string \<Rightarrow> string option \<Rightarrow> (real list \<times> jsval \<Rightarrow> js_error + query_response)
          \<Rightarrow> real list \<times> jsval \<Rightarrow> js_error + query_response)
     \<Rightarrow> payload \<Rightarrow> js_error + context_item list option" where
  "retrieveContext env traceAgentNode inp =
     bind (generateEmbedding env (processedMessage inp)) (\<lambda>embedding.
       let filterExpression =
             retrievalBuildFilterExpression (dateFilters inp) (metadataFilters inp)
       in bind (traceWithHandit traceAgentNode ragRetrievalNode (handidFlowId inp)
                  (\<lambda>(vector, filter). index_query env vector filter)
                  (embedding, filterExpression))
            (\<lambda>results.
               case matches results of
                 None \<Rightarrow> Inr None
               | Some ms \<Rightarrow> bind (mapMatches ms) (\<lambda>items. Inr (Some items))))"

text \<open>The object that the \<open>try\<close> block emits, and the one that the \<open>catch\<close> block emits.\<close>

definition contextRetrievedEvent :: "payload \<Rightarrow> context_item list option \<Rightarrow> event" where
  "contextRetrievedEvent inp context =
     \<lparr>topic = ''context-retrieved'',
      data = \<lparr>originalMessage = originalMessage inp,
              processedMessage = processedMessage inp,
              timestamp = timestamp inp,
              dateFilters = dateFilters inp,
              metadataFilters = metadataFilters inp,
              context_items = Some (case context of Some c \<Rightarrow> c | None \<Rightarrow> []),
              response = None, error = None, handidFlowId = handidFlowId inp\<rparr>\<rparr>"

definition contextFallbackEvent :: "payload \<Rightarrow> event" where
  "contextFallbackEvent inp =
     \<lparr>topic = ''context-retrieved'',
      data = \<lparr>originalMessage = originalMessage inp,
              processedMessage = processedMessage inp,
              timestamp = timestamp inp, dateFilters = JUndefined,
              metadataFilters = JUndefined, context_items = Some [],
              response = None, error = None, handidFlowId = handidFlowId inp\<rparr>\<rparr>"

definition retrievalHandler ::
  "retrieval_env
     \<Rightarrow> (string \<Rightarrow> string option \<Rightarrow> (real list \<times> jsval \<Rightarrow> js_error + query_response)
          \<Rightarrow> real list \<times> jsval \<Rightarrow> js_error + query_response)
     \<Rightarrow> payload \<Rightarrow> event list \<times> js_error option" where
  "retrievalHandler env traceAgentNode inp =
     emitWithFallback (retrieval_emit env)
       (bind (retrieveContext env traceAgentNode inp)
          (\<lambda>context. Inr (contextRetrievedEvent inp context)))
       (\<lambda>e. contextFallbackEvent inp)"

section \<open>The Generate stage (steps/openai-generation.step.ts)\<close>

text \<open>
  \<open>generation_create\<close> is the provider call, given the context text that the system prompt
  is built around and the user's text. \<open>toText\<close> is the conversion of a value inside a
  template literal, \<open>toFixed2\<close> is \<open>Number.prototype.toFixed(2)\<close>.
\<close>

record generation_env =
  generation_create :: "string \<Rightarrow> string \<Rightarrow> js_error + chat_completion"
  toText :: "jsval \<Rightarrow> string"
  toFixed2 :: "real \<Rightarrow> string"
  generation_emit :: "event \<Rightarrow> js_error option"

definition newline :: string where
  "newline = [CHR 0x0A]"

fun joinWith :: "string \<Rightarrow> string list \<Rightarrow> string" where
  "joinWith sep [] = []"
| "joinWith sep [x] = x"
| "joinWith sep (x # y # ys) = x @ sep @ joinWith sep (y # ys)"

definition scoreText :: "generation_env \<Rightarrow> jsval \<Rightarrow> js_error + string" where
  "scoreText env sc =
     (case sc of
        JNum n \<Rightarrow> Inr (toFixed2 env n)
      | JUndefined \<Rightarrow> Inl (cannotRead ''undefined'' ''toFixed'')
      | JNull \<Rightarrow> Inl (cannotRead ''null'' ''toFixed'')
      | _ \<Rightarrow> Inl (TypeError ''item.score.toFixed is not a function''))"

definition formatItem :: "generation_env \<Rightarrow> context_item \<Rightarrow> js_error + string" where
  "formatItem env item =
     bind (scoreText env (item_score item)) (\<lambda>sc.
       Inr (if item_type item = JStr ''insight''
            then ''--- Previous Insight ---'' @ newline
                 @ ''Problem: '' @ toText env (item_problem item) @ newline
                 @ ''Solution: '' @ toText env (item_solution item) @ newline
                 @ ''Date: '' @ toText env (item_created_at item) @ newline
                 @ ''Similarity Score: '' @ sc @ newline
                 @ ''-------------------------''
            else ''--- Previous User Query ---'' @ newline
                 @ ''User: '' @ toText env (item_input item) @ newline
                 @ ''Agent: '' @ toText env (item_output item) @ newline
                 @ ''Date: '' @ toText env (item_created_at item) @ newline
                 @ ''Similarity Score: '' @ sc @ newline
                 @ ''-------------------------''))"

fun formatItems :: "generation_env \<Rightarrow> context_item list \<Rightarrow> js_error + string list" where
  "formatItems env [] = Inr []"
| "formatItems env (item # items) =
     bind (formatItem env item) (\<lambda>t. bind (formatItems env items) (\<lambda>ts. Inr (t # ts)))"

definition formatContext :: "generation_env \<Rightarrow> context_item list option \<Rightarrow> js_error + string" where
  "formatContext env ctx =
     (let context = (case ctx of Some c \<Rightarrow> c | None \<Rightarrow> [])
      in if length context = 0 then Inr ''No relevant previous conversations found.''
         else bind (formatItems env context) (\<lambda>ts. Inr (joinWith (newline @ newline) ts)))"

definition couldNotGenerate :: string where
  "couldNotGenerate = ''I apologize, but I couldn't generate a response. Please try again.''"

definition fallbackResponse :: string where
  "fallbackResponse =
     ''I apologize, but I encountered an error while generating a response. Please try again later.''"

definition generateResponse :: "generation_env \<Rightarrow> string \<times> string \<Rightarrow> js_error + string" where
  "generateResponse env args =
     (case args of (promptText, contextText) \<Rightarrow>
        bind (generation_create env contextText promptText)
          (\<lambda>response.
             case choices response of
               [] \<Rightarrow> Inl (cannotRead ''undefined'' ''message'')
             | c # cs \<Rightarrow>
                 Inr (case choice_message c of
                        None \<Rightarrow> couldNotGenerate
                      | Some m \<Rightarrow>
                          (case content m of
                             None \<Rightarrow> couldNotGenerate
                           | Some s \<Rightarrow> if s \<noteq> [] then s else couldNotGenerate))))"

definition errorText :: "js_error \<Rightarrow> string" where
  "errorText e =
     (case e of
        Error m \<Rightarrow> m
      | TypeError m \<Rightarrow> m
      | ThrownValue v \<Rightarrow> ''Failed to generate response'')"

text \<open>The object that the \<open>try\<close> block emits, and the one that the \<open>catch\<close> block emits.\<close>

definition responseGeneratedEvent :: "payload \<Rightarrow> string \<Rightarrow> event" where
  "responseGeneratedEvent inp generatedResponse =
     \<lparr>topic = ''response-generated'',
      data = \<lparr>originalMessage = originalMessage inp,
              processedMessage = processedMessage inp,
              timestamp = timestamp inp, dateFilters = JUndefined,
              metadataFilters = JUndefined,
              context_items = context_items inp,
              response = Some generatedResponse, error = None,
              handidFlowId = handidFlowId inp\<rparr>\<rparr>"

definition responseFallbackEvent :: "payload \<Rightarrow> js_error \<Rightarrow> event" where
  "responseFallbackEvent inp e =
     \<lparr>topic = ''response-generated'',
      data = \<lparr>originalMessage = originalMessage inp,
              processedMessage = processedMessage inp,
              timestamp = timestamp inp, dateFilters = JUndefined,
              metadataFilters = JUndefined, context_items = None,
              response = Some fallbackResponse, error = Some (errorText e),
              handidFlowId = handidFlowId inp\<rparr>\<rparr>"

text \<open>The \<open>try\<close> block of the handler up to its \<open>emit\<close>: the response it generates.\<close>

definition generateAnswer ::
  "generation_env
     \<Rightarrow> (string \<Rightarrow> string option \<Rightarrow> (string \<times> string \<Rightarrow> js_error + string)
          \<Rightarrow> string \<times> string \<Rightarrow> js_error + string)
     \<Rightarrow> payload \<Rightarrow> js_error + string" where
  "generateAnswer env traceAgentNode inp =
     bind (formatContext env (context_items inp)) (\<lambda>contextString.
       traceWithHandit traceAgentNode responseGenerationNode (handidFlowId inp)
         (generateResponse env) (processedMessage inp, contextString))"

definition generationHandler ::
  "generation_env
     \<Rightarrow> (string \<Rightarrow> string option \<Rightarrow> (string \<times> string \<Rightarrow> js_error + string)
          \<Rightarrow> string \<times> string \<Rightarrow> js_error + string)
     \<Rightarrow> payload \<Rightarrow> event list \<times> js_error option" where
  "generationHandler env traceAgentNode inp =
     emitWithFallback (generation_emit env)
       (bind (generateAnswer env traceAgentNode inp)
          (\<lambda>generatedResponse. Inr (responseGeneratedEvent inp generatedResponse)))
       (\<lambda>e. responseFallbackEvent inp e)"

section \<open>The Complete stage (steps/flow-completion.step.ts)\<close>

text \<open>The stage emits nothing; it closes the trace session when the payload has a flow id.\<close>

definition completionHandler ::
  "(string list \<Rightarrow> string \<Rightarrow> js_error option) \<Rightarrow> payload \<Rightarrow> tracing_state
     \<Rightarrow> tracing_state \<times> js_error option" where
  "completionHandler endAgentTracing inp st =
     (let flowId = handidFlowId inp
      in case flowId of
           None \<Rightarrow> (st, None)
         | Some f \<Rightarrow>
             if f = [] then (st, None)
             else
               (case endAgentTracingHandit endAgentTracing flowId st of
                  (st', None) \<Rightarrow> (st', None)
                | (st', Some e) \<Rightarrow> (st', None)))"

section \<open>The reference filter-expression builder (scripts/metadata-filters.ts)\<close>

definition buildFilterExpression :: "obj option \<Rightarrow> obj option \<Rightarrow> obj option" where
  "buildFilterExpression dateFilters' metadataFilters' =
     (let filters = [];
          filters =
            (case dateFilters' of
               None \<Rightarrow> filters
             | Some df \<Rightarrow>
                 if truthy (obj_get df ''dateRange'')
                 then
                   (let start = js_prop (obj_get df ''dateRange'') ''start'';
                        end' = js_prop (obj_get df ''dateRange'') ''end''
                    in obj_set filters ''date_str'' (JObj [(''$gte'', start), (''$lte'', end')]))
                 else object_assign filters df);
          filters =
            (case metadataFilters' of
               None \<Rightarrow> filters
             | Some mf \<Rightarrow> object_assign filters mf)
      in if length (object_keys filters) > 0 then Some filters else None)"

section \<open>Sample inputs and collaborators\<close>

text \<open>Concrete inputs, providers and backends, on which the theorems are evaluated.\<close>

definition sampleClock :: clock where
  "sampleClock =
     \<lparr>today = ''2024-03-10'', yesterday = ''2024-03-09'', lastWeekStart = ''2024-03-03''\<rparr>"

definition emitOk :: "event \<Rightarrow> js_error option" where
  "emitOk ev = None"

definition samplePayload :: payload where
  "samplePayload =
     \<lparr>originalMessage = '' show errors'', processedMessage = ''show errors'',
      timestamp = ''t0'', dateFilters = JUndefined, metadataFilters = JUndefined,
      context_items = Some [], response = None, error = None,
      handidFlowId = Some ''flow-1''\<rparr>"

definition sampleMessage :: message_input where
  "sampleMessage = \<lparr>message = '' show errors'', sent_at = None\<rparr>"

definition samplePreprocess :: preprocess_env where
  "samplePreprocess = \<lparr>newFlowId = ''flow-7'', nowISO = ''t1'', preprocess_emit = emitOk\<rparr>"

text \<open>An embedding provider that fails.\<close>

definition embeddingDown :: retrieval_env where
  "embeddingDown =
     \<lparr>embeddings_create = (\<lambda>t. Inl (Error ''embedding provider unavailable'')),
      index_query = (\<lambda>v f. Inr \<lparr>matches = None\<rparr>),
      retrieval_emit = emitOk\<rparr>"

text \<open>A completion provider that answers with no choices, and one that answers \<open>hello\<close>.\<close>

definition emptyChoices :: generation_env where
  "emptyChoices =
     \<lparr>generation_create = (\<lambda>contextText promptText. Inr \<lparr>choices = []\<rparr>),
      toText = (\<lambda>v. ''''), toFixed2 = (\<lambda>n. ''''), generation_emit = emitOk\<rparr>"

definition helloAnswer :: generation_env where
  "helloAnswer =
     \<lparr>generation_create =
        (\<lambda>contextText promptText.
           Inr \<lparr>choices = [\<lparr>choice_message = Some \<lparr>content = Some ''hello''\<rparr>\<rparr>]\<rparr>),
      toText = (\<lambda>v. ''''), toFixed2 = (\<lambda>n. ''''), generation_emit = emitOk\<rparr>"

text \<open>An LLM whose answer parses to an object with a rewritten query.\<close>

definition rewritingLLM :: extraction_env where
  "rewritingLLM =
     \<lparr>openaiApiKey = Some ''key'',
      extraction_create =
        (\<lambda>prompt user.
           Inr \<lparr>choices = [\<lparr>choice_message = Some \<lparr>content = Some ''{...}''\<rparr>\<rparr>]\<rparr>),
      json_parse =
        (\<lambda>text. Inr (JObj [(''dateFilters'', JNull), (''extractedQuery'', JStr ''errors'')])),
      extraction_emit = emitOk\<rparr>"

text \<open>A stored insight: its metadata has no \<open>input\<close>, \<open>output\<close> or \<open>created_at\<close>.\<close>

definition insightMatch :: scored_match where
  "insightMatch =
     \<lparr>match_metadata =
        JObj [(''type'', JStr ''insight''), (''problem'', JStr ''slow answers''),
              (''solution'', JStr ''cache the index'')],
      match_score = JNum 0.5\<rparr>"

text \<open>A match that the store returns without metadata, and a store that returns both.\<close>

definition bareMatch :: scored_match where
  "bareMatch = \<lparr>match_metadata = JUndefined, match_score = JNum 0.25\<rparr>"

definition storeWithBareMatch :: retrieval_env where
  "storeWithBareMatch =
     \<lparr>embeddings_create = (\<lambda>t. Inr [[0.5, 0.25]]),
      index_query = (\<lambda>v f. Inr \<lparr>matches = Some [insightMatch, bareMatch]\<rparr>),
      retrieval_emit = emitOk\<rparr>"

text \<open>A tracing backend that accepts every request, and one that rejects every request.\<close>

definition backendOk :: "string list \<Rightarrow> string \<Rightarrow> js_error option" where
  "backendOk sent f = None"

definition backendDown :: "string list \<Rightarrow> string \<Rightarrow> js_error option" where
  "backendDown sent f = Some (Error ''backend down'')"

definition noTracing :: tracing_state where
  "noTracing = \<lparr>console = [], endRequests = []\<rparr>"


section \<open>Properties of strings and objects\<close>

lemma str_includes_iff: "str_includes s sub \<longleftrightarrow> (\<exists>pre post. s = pre @ sub @ post)"
proof (induction s)
  case Nil
  then show ?case by auto
next
  case (Cons c cs)
  show ?case
  proof
    assume "str_includes (c # cs) sub"
    then consider "prefix sub (c # cs)" | "str_includes cs sub" by auto
    then show "\<exists>pre post. c # cs = pre @ sub @ post"
    proof cases
      case 1
      then obtain post where "c # cs = sub @ post" by (auto simp: prefix_def)
      then have "c # cs = [] @ sub @ post" by simp
      then show ?thesis by blast
    next
      case 2
      with Cons.IH obtain pre post where "cs = pre @ sub @ post" by blast
      then have "c # cs = (c # pre) @ sub @ post" by simp
      then show ?thesis by blast
    qed
  next
    assume "\<exists>pre post. c # cs = pre @ sub @ post"
    then obtain pre post where eq: "c # cs = pre @ sub @ post" by blast
    show "str_includes (c # cs) sub"
    proof (cases pre)
      case Nil
      with eq have "prefix sub (c # cs)" by (simp add: prefix_def)
      then show ?thesis by simp
    next
      case (Cons p ps)
      with eq have "cs = ps @ sub @ post" by simp
      with Cons.IH have "str_includes cs sub" by blast
      then show ?thesis by simp
    qed
  qed
qed

lemma obj_get_obj_set: "obj_get (obj_set ob k v) k' = (if k' = k then v else obj_get ob k')"
  by (induction ob) (auto simp: obj_get_def)

lemma obj_set_not_empty: "obj_set ob k v \<noteq> []"
  by (cases ob) (auto split: if_splits)

lemma obj_get_empty: "obj_get [] k = JUndefined"
  by (simp add: obj_get_def)

lemma filter_field_keys:
  "filter_field (if length (object_keys ob) > 0 then Some ob else None) k = obj_get ob k"
  by (cases ob) (simp_all add: filter_field_def object_keys_def obj_get_def)

lemma scanKeywords_other_field:
  "field' \<noteq> field \<Longrightarrow> obj_get (scanKeywords q field kws fs) field' = obj_get fs field'"
  by (induction kws arbitrary: fs) (simp_all add: obj_get_obj_set)

lemma scanKeywords_last:
  "obj_get (scanKeywords q field kws fs) field =
     (let ms = filter (str_includes (toLowerCase q)) kws
      in if ms = [] then obj_get fs field else JStr (last ms))"
  by (induction kws arbitrary: fs) (simp_all add: obj_get_obj_set Let_def)

lemma extractMetadataFilters_field:
  "filter_field (extractMetadataFilters q) k =
     obj_get
       (let filters = scanKeywords q ''environment'' environments [];
            filters = scanKeywords q ''status'' statuses filters
        in if str_includes (toLowerCase q) ''correct''
           then obj_set filters ''is_correct'' (JBool True)
           else if str_includes (toLowerCase q) ''incorrect''
                   \<or> str_includes (toLowerCase q) ''wrong''
           then obj_set filters ''is_correct'' (JBool False)
           else filters) k"
  unfolding extractMetadataFilters_def Let_def by (rule filter_field_keys)

section \<open>Correctness keywords\<close>

text \<open>
  What the extractor computes for the correctness field: the test for \<open>correct\<close> comes
  first, so it decides every query that contains \<open>incorrect\<close> as well.
\<close>

lemma extractMetadataFilters_is_correct:
  "filter_field (extractMetadataFilters q) ''is_correct'' =
     (if str_includes (toLowerCase q) ''correct'' then JBool True
      else if str_includes (toLowerCase q) ''wrong'' then JBool False
      else JUndefined)"
proof -
  have inc: "str_includes s ''incorrect'' \<Longrightarrow> str_includes s ''correct''" for s
  proof -
    assume "str_includes s ''incorrect''"
    then obtain pre post where "s = pre @ ''incorrect'' @ post"
      unfolding str_includes_iff by blast
    then have "s = (pre @ ''in'') @ ''correct'' @ post" by simp
    then show ?thesis unfolding str_includes_iff by blast
  qed
  show ?thesis
    unfolding extractMetadataFilters_field Let_def
    using inc [of "toLowerCase q"]
    by (auto simp: obj_get_obj_set scanKeywords_other_field obj_get_empty)
qed

text \<open>
  C1. A query that contains \<open>incorrect\<close> is to get \<open>is_correct = false\<close>. On the query
  \<open>show incorrect answers\<close> the extractor returns \<open>is_correct = true\<close>: the branch that
  tests for \<open>incorrect\<close> is never reached for such a query.
\<close>

theorem extractMetadataFilters_incorrect_query:
  "str_includes (toLowerCase ''show incorrect answers'') ''incorrect''
   \<and> extractMetadataFilters ''show incorrect answers'' = Some [(''is_correct'', JBool True)]"
  by code_simp

section \<open>Several keywords of one category\<close>

text \<open>
  C6 (as the code has it). For every query, the environment field is the last keyword of
  the declared list that the lower-cased query contains, and is unset when it contains
  none; the status field likewise. Each later match overwrites the earlier one.
\<close>

theorem extractMetadataFilters_last_match:
  "filter_field (extractMetadataFilters q) ''environment'' =
     (let ms = filter (str_includes (toLowerCase q)) environments
      in if ms = [] then JUndefined else JStr (last ms))
   \<and> filter_field (extractMetadataFilters q) ''status'' =
     (let ms = filter (str_includes (toLowerCase q)) statuses
      in if ms = [] then JUndefined else JStr (last ms))"
proof -
  have env: "obj_get (scanKeywords q ''status'' statuses fs) ''environment'' =
      obj_get fs ''environment''" for fs
    by (rule scanKeywords_other_field) simp
  show ?thesis
    unfolding extractMetadataFilters_field
    by (simp add: Let_def obj_get_obj_set env scanKeywords_last scanKeywords_other_field
        obj_get_empty)
qed

theorem extractMetadataFilters_last_match_witness:
  "filter_field (extractMetadataFilters ''Staging and Production'') ''environment''
     = JStr ''staging''
   \<and> filter_field (extractMetadataFilters ''Staging and Production'') ''status''
     = JUndefined"
proof -
  have ms: "filter (str_includes (toLowerCase ''Staging and Production'')) environments
      = [''production'', ''staging'']"
    "filter (str_includes (toLowerCase ''Staging and Production'')) statuses = []"
    by code_simp+
  show ?thesis
    using extractMetadataFilters_last_match [of "''Staging and Production''"]
    unfolding ms by simp
qed

text \<open>
  The query \<open>production test\<close> contains two environment keywords. The first of them in
  the declared order is \<open>production\<close>; the extractor returns \<open>test\<close>.
\<close>

theorem extractMetadataFilters_first_match_counterexample:
  "find (str_includes (toLowerCase ''production test'')) environments = Some ''production''
   \<and> filter_field (extractMetadataFilters ''production test'') ''environment'' = JStr ''test''
   \<and> JStr ''test'' \<noteq> JStr ''production''"
  by code_simp


section \<open>The regular expressions find the first match\<close>

lemma matchAt_take: "matchAt p s \<longleftrightarrow> length p \<le> length s \<and> matchAt p (take (length p) s)"
  by (induction p s rule: matchAt.induct) auto

lemma matchAt_length: "matchAt p s \<Longrightarrow> length p \<le> length s"
  using matchAt_take by blast

lemma regexFirst_None: "p \<noteq> [] \<Longrightarrow> regexFirst p q = None \<longleftrightarrow> (\<forall>n. \<not> matchAt p (drop n q))"
proof (induction q)
  case Nil
  then show ?case by (cases p) auto
next
  case (Cons c cs)
  show ?case
  proof (cases "matchAt p (c # cs)")
    case True
    then have "matchAt p (drop 0 (c # cs))" by simp
    with True show ?thesis by (metis option.distinct(1) regexFirst.simps(2))
  next
    case False
    have "(\<forall>n. \<not> matchAt p (drop n (c # cs))) \<longleftrightarrow> (\<forall>n. \<not> matchAt p (drop n cs))"
    proof
      assume a: "\<forall>n. \<not> matchAt p (drop n (c # cs))"
      show "\<forall>n. \<not> matchAt p (drop n cs)"
      proof
        fix n from a have "\<not> matchAt p (drop (Suc n) (c # cs))" by blast
        then show "\<not> matchAt p (drop n cs)" by simp
      qed
    next
      assume a: "\<forall>n. \<not> matchAt p (drop n cs)"
      show "\<forall>n. \<not> matchAt p (drop n (c # cs))"
      proof
        fix n show "\<not> matchAt p (drop n (c # cs))"
          using a False by (cases n) auto
      qed
    qed
    with False Cons show ?thesis by simp
  qed
qed

lemma regexFirst_Some:
  "p \<noteq> [] \<Longrightarrow> regexFirst p q = Some d \<Longrightarrow>
     \<exists>n. matchAt p (drop n q) \<and> d = take (length p) (drop n q) \<and> (\<forall>m<n. \<not> matchAt p (drop m q))"
proof (induction q)
  case Nil
  then show ?case by (cases p) auto
next
  case (Cons c cs)
  show ?case
  proof (cases "matchAt p (c # cs)")
    case True
    with Cons.prems have "d = take (length p) (c # cs)" by simp
    with True have "matchAt p (drop 0 (c # cs)) \<and> d = take (length p) (drop 0 (c # cs))
        \<and> (\<forall>m<0. \<not> matchAt p (drop m (c # cs)))" by simp
    then show ?thesis by blast
  next
    case False
    with Cons.prems have "regexFirst p cs = Some d" by simp
    with Cons.IH Cons.prems obtain n where n: "matchAt p (drop n cs)"
      "d = take (length p) (drop n cs)" "\<forall>m<n. \<not> matchAt p (drop m cs)" by blast
    have "\<forall>m<Suc n. \<not> matchAt p (drop m (c # cs))"
    proof (intro allI impI)
      fix m assume "m < Suc n"
      then show "\<not> matchAt p (drop m (c # cs))" using False n(3) by (cases m) auto
    qed
    with n have "matchAt p (drop (Suc n) (c # cs)) \<and> d = take (length p) (drop (Suc n) (c # cs))
        \<and> (\<forall>m<Suc n. \<not> matchAt p (drop m (c # cs)))" by simp
    then show ?thesis by blast
  qed
qed

lemma isoDate_occurs:
  "occursAt q n d \<and> isoDate d \<longleftrightarrow> matchAt exactDatePattern (drop n q) \<and> d = take 10 (drop n q)"
proof
  assume a: "occursAt q n d \<and> isoDate d"
  then have d: "take 10 (drop n q) = d" "length d = 10" "matchAt exactDatePattern d"
    by (auto simp: occursAt_def isoDate_def)
  have len: "length exactDatePattern = 10" by (simp add: exactDatePattern_def)
  from a have "10 \<le> length (drop n q)" by (auto simp: occursAt_def isoDate_def)
  with d len show "matchAt exactDatePattern (drop n q) \<and> d = take 10 (drop n q)"
    using matchAt_take [of exactDatePattern "drop n q"] by simp
next
  assume a: "matchAt exactDatePattern (drop n q) \<and> d = take 10 (drop n q)"
  have len: "length exactDatePattern = 10" by (simp add: exactDatePattern_def)
  from a have l: "10 \<le> length (drop n q)" using matchAt_length [of exactDatePattern] len by metis
  from a have m: "matchAt exactDatePattern d"
    using matchAt_take [of exactDatePattern "drop n q"] len by simp
  from l a m show "occursAt q n d \<and> isoDate d"
    by (auto simp: occursAt_def isoDate_def)
qed

lemma yearMatch_None_from:
  "yearMatch (prevChar q k) (drop k q) = None \<longleftrightarrow>
     (\<forall>n\<ge>k. \<not> yearHere (prevChar q n) (drop n q))"
proof (induction "length q - k" arbitrary: k)
  case 0
  then have e: "drop n q = []" if "n \<ge> k" for n using that by simp
  have "\<not> yearHere p []" for p by (simp add: yearHere_def yearPattern_def)
  with e show ?case by simp
next
  case (Suc x)
  then have k: "k < length q" by simp
  then have d: "drop k q = q ! k # drop (Suc k) q" by (simp add: Cons_nth_drop_Suc)
  have p: "prevChar q (Suc k) = Some (q ! k)" by (simp add: prevChar_def)
  from Suc have x: "x = length q - Suc k" by simp
  show ?case
  proof (cases "yearHere (prevChar q k) (drop k q)")
    case True
    then show ?thesis using d by auto
  next
    case False
    then have "yearMatch (prevChar q k) (drop k q) = None \<longleftrightarrow>
        yearMatch (prevChar q (Suc k)) (drop (Suc k) q) = None"
      using d p by (metis yearMatch.simps(2))
    also have "\<dots> \<longleftrightarrow> (\<forall>n\<ge>Suc k. \<not> yearHere (prevChar q n) (drop n q))"
      by (rule Suc.hyps(1) [OF x])
    also have "\<dots> \<longleftrightarrow> (\<forall>n\<ge>k. \<not> yearHere (prevChar q n) (drop n q))"
      using False by (metis Suc_leI le_eq_less_or_eq Suc_leD)
    finally show ?thesis .
  qed
qed

lemma yearMatch_Some_from:
  "yearMatch (prevChar q k) (drop k q) = Some y \<Longrightarrow>
     \<exists>n\<ge>k. yearHere (prevChar q n) (drop n q) \<and> y = take 4 (drop n q)
       \<and> (\<forall>m. k \<le> m \<and> m < n \<longrightarrow> \<not> yearHere (prevChar q m) (drop m q))"
proof (induction "length q - k" arbitrary: k)
  case 0
  then have "drop k q = []" by simp
  with 0 show ?case by simp
next
  case (Suc x)
  then have k: "k < length q" by simp
  then have d: "drop k q = q ! k # drop (Suc k) q" by (simp add: Cons_nth_drop_Suc)
  have p: "prevChar q (Suc k) = Some (q ! k)" by (simp add: prevChar_def)
  from Suc have x: "x = length q - Suc k" by simp
  show ?case
  proof (cases "yearHere (prevChar q k) (drop k q)")
    case True
    with Suc.prems d have "y = take 4 (drop k q)" by (metis option.inject yearMatch.simps(2))
    moreover have "\<forall>m. k \<le> m \<and> m < k \<longrightarrow> \<not> yearHere (prevChar q m) (drop m q)"
      using leD by blast
    ultimately have "k \<le> k \<and> yearHere (prevChar q k) (drop k q) \<and> y = take 4 (drop k q)
       \<and> (\<forall>m. k \<le> m \<and> m < k \<longrightarrow> \<not> yearHere (prevChar q m) (drop m q))"
      using True by blast
    then show ?thesis by blast
  next
    case False
    with Suc.prems d p have "yearMatch (prevChar q (Suc k)) (drop (Suc k) q) = Some y"
      by (metis yearMatch.simps(2))
    from Suc.hyps(1) [OF x this] obtain n where n: "Suc k \<le> n"
      "yearHere (prevChar q n) (drop n q)" "y = take 4 (drop n q)"
      "\<forall>m. Suc k \<le> m \<and> m < n \<longrightarrow> \<not> yearHere (prevChar q m) (drop m q)" by blast
    have "\<forall>m. k \<le> m \<and> m < n \<longrightarrow> \<not> yearHere (prevChar q m) (drop m q)"
      using False n(4) by (metis Suc_leI le_eq_less_or_eq)
    with n have "k \<le> n \<and> yearHere (prevChar q n) (drop n q) \<and> y = take 4 (drop n q)
       \<and> (\<forall>m. k \<le> m \<and> m < n \<longrightarrow> \<not> yearHere (prevChar q m) (drop m q))" by simp
    then show ?thesis by blast
  qed
qed

lemma yearAt_iff:
  "yearAt q n y \<longleftrightarrow> yearHere (prevChar q n) (drop n q) \<and> y = take 4 (drop n q)"
proof -
  have len: "length yearPattern = 4" by (simp add: yearPattern_def)
  have bb: "boundaryBefore (prevChar q n) \<longleftrightarrow> (n = 0 \<or> \<not> isWordChar (q ! (n - 1)))"
    by (simp add: boundaryBefore_def prevChar_def)
  have ba: "boundaryAfter (drop 4 (drop n q)) \<longleftrightarrow> (n + 4 = length q \<or> \<not> isWordChar (q ! (n + 4)))"
    if "n + 4 \<le> length q"
  proof (cases "n + 4 = length q")
    case True
    then show ?thesis by (simp add: boundaryAfter_def)
  next
    case False
    with that have "n + 4 < length q" by simp
    then have "q ! (n + 4) # drop (Suc (n + 4)) q = drop (n + 4) q"
      by (rule Cons_nth_drop_Suc)
    then have "drop 4 (drop n q) = q ! (n + 4) # drop (Suc (n + 4)) q"
      by (simp only: drop_drop add.commute)
    with False show ?thesis by (simp add: boundaryAfter_def)
  qed
  show ?thesis
  proof
    assume a: "yearAt q n y"
    then have l: "n + 4 \<le> length q" and t: "take 4 (drop n q) = y" and m: "matchAt yearPattern y"
      by (auto simp: yearAt_def occursAt_def)
    from l have "4 \<le> length (drop n q)" by simp
    with t m len have "matchAt yearPattern (drop n q)"
      using matchAt_take [of yearPattern "drop n q"] by simp
    moreover from a have "boundaryBefore (prevChar q n)"
      unfolding bb yearAt_def by blast
    moreover from a have "boundaryAfter (drop 4 (drop n q))"
      unfolding ba [OF l] yearAt_def by blast
    ultimately show "yearHere (prevChar q n) (drop n q) \<and> y = take 4 (drop n q)"
      unfolding yearHere_def using t by blast
  next
    assume a: "yearHere (prevChar q n) (drop n q) \<and> y = take 4 (drop n q)"
    then have m: "matchAt yearPattern (drop n q)" by (simp add: yearHere_def)
    then have "4 \<le> length (drop n q)" using matchAt_length len by metis
    then have l: "n + 4 \<le> length q" by simp
    from m len a have "matchAt yearPattern y" using matchAt_take [of yearPattern "drop n q"] by simp
    moreover from a have "n = 0 \<or> \<not> isWordChar (q ! (n - 1))"
      unfolding yearHere_def bb by blast
    moreover from a have "n + 4 = length q \<or> \<not> isWordChar (q ! (n + 4))"
      unfolding yearHere_def ba [OF l] by blast
    moreover from a l have "occursAt q n y \<and> length y = 4"
      by (simp add: occursAt_def)
    ultimately show "yearAt q n y"
      unfolding yearAt_def by blast
  qed
qed

lemma hasYear_iff: "hasYear q \<longleftrightarrow> yearMatch None q \<noteq> None"
proof -
  have "yearMatch None q = None \<longleftrightarrow> (\<forall>n. \<not> yearHere (prevChar q n) (drop n q))"
    using yearMatch_None_from [of q 0] by (simp add: prevChar_def)
  then show ?thesis by (auto simp: hasYear_def yearAt_iff)
qed

lemma firstYear_iff: "firstYear q y \<longleftrightarrow> yearMatch None q = Some y"
proof
  assume "yearMatch None q = Some y"
  then have "yearMatch (prevChar q 0) (drop 0 q) = Some y" by (simp add: prevChar_def)
  from yearMatch_Some_from [OF this] obtain n where
    n: "yearHere (prevChar q n) (drop n q)" "y = take 4 (drop n q)"
       "\<forall>m<n. \<not> yearHere (prevChar q m) (drop m q)" by auto
  have "\<forall>m y'. yearAt q m y' \<longrightarrow> n \<le> m"
    using n(3) by (metis yearAt_iff not_le)
  with n show "firstYear q y" unfolding firstYear_def yearAt_iff by blast
next
  assume "firstYear q y"
  then obtain n where n: "yearAt q n y" "\<forall>m y'. yearAt q m y' \<longrightarrow> n \<le> m"
    unfolding firstYear_def by blast
  then have "hasYear q" unfolding hasYear_def by blast
  then obtain y' where y': "yearMatch None q = Some y'" unfolding hasYear_iff by auto
  then have "yearMatch (prevChar q 0) (drop 0 q) = Some y'" by (simp add: prevChar_def)
  from yearMatch_Some_from [OF this] obtain n' where
    n': "yearHere (prevChar q n') (drop n' q)" "y' = take 4 (drop n' q)"
       "\<forall>m<n'. \<not> yearHere (prevChar q m) (drop m q)" by auto
  from n' have at: "yearAt q n' y'" by (simp add: yearAt_iff)
  with n(2) have "n \<le> n'" by blast
  moreover from n(1) n'(3) have "\<not> n < n'" by (auto simp: yearAt_iff)
  ultimately have "n = n'" by simp
  with n(1) n'(2) have "y = y'" by (simp add: yearAt_iff)
  with y' show "yearMatch None q = Some y" by simp
qed

lemma exactDatePattern_length: "length exactDatePattern = 10" "exactDatePattern \<noteq> []"
  by (simp_all add: exactDatePattern_def)

lemma hasIsoDate_iff: "hasIsoDate q \<longleftrightarrow> regexFirst exactDatePattern q \<noteq> None"
proof -
  have "hasIsoDate q \<longleftrightarrow>
      (\<exists>n d. matchAt exactDatePattern (drop n q) \<and> d = take 10 (drop n q))"
    by (simp only: hasIsoDate_def isoDate_occurs)
  also have "\<dots> \<longleftrightarrow> (\<exists>n. matchAt exactDatePattern (drop n q))" by simp
  also have "\<dots> \<longleftrightarrow> regexFirst exactDatePattern q \<noteq> None"
    using regexFirst_None [OF exactDatePattern_length(2), of q] by simp
  finally show ?thesis .
qed

lemma firstIsoDate_iff: "firstIsoDate q d \<longleftrightarrow> regexFirst exactDatePattern q = Some d"
proof -
  define M where "M n = matchAt exactDatePattern (drop n q)" for n
  define D where "D n = take 10 (drop n q)" for n
  have occ: "occursAt q n d' \<and> isoDate d' \<longleftrightarrow> M n \<and> d' = D n" for n d'
    by (simp only: M_def D_def isoDate_occurs)
  have first: "firstIsoDate q d \<longleftrightarrow> (\<exists>n. M n \<and> d = D n \<and> (\<forall>m. M m \<longrightarrow> n \<le> m))"
  proof -
    have "(\<forall>m d'. occursAt q m d' \<and> isoDate d' \<longrightarrow> n \<le> m) \<longleftrightarrow> (\<forall>m. M m \<longrightarrow> n \<le> m)" for n
      unfolding occ by simp
    then show ?thesis
      unfolding firstIsoDate_def by (simp only: occ conj_assoc [symmetric])
  qed
  have some: "\<exists>n. M n \<and> d' = D n \<and> (\<forall>m<n. \<not> M m)"
    if "regexFirst exactDatePattern q = Some d'" for d'
    using regexFirst_Some [OF exactDatePattern_length(2) that]
    by (simp only: M_def D_def exactDatePattern_length(1))
  have none: "regexFirst exactDatePattern q = None \<longleftrightarrow> (\<forall>n. \<not> M n)"
    using regexFirst_None [OF exactDatePattern_length(2), of q] by (simp only: M_def)
  show ?thesis
  proof
    assume "regexFirst exactDatePattern q = Some d"
    from some [OF this] obtain n where n: "M n" "d = D n" "\<forall>m<n. \<not> M m" by blast
    from n(3) have "\<forall>m. M m \<longrightarrow> n \<le> m" by (meson not_le)
    with n(1,2) show "firstIsoDate q d" unfolding first by blast
  next
    assume "firstIsoDate q d"
    then obtain n where n: "M n" "d = D n" "\<forall>m. M m \<longrightarrow> n \<le> m" unfolding first by blast
    from n(1) none obtain d' where d': "regexFirst exactDatePattern q = Some d'"
      by (cases "regexFirst exactDatePattern q") auto
    from some [OF this] obtain n' where n': "M n'" "d' = D n'" "\<forall>m<n'. \<not> M m" by blast
    from n(3) n'(1) have "n \<le> n'" by blast
    moreover from n(1) n'(3) have "\<not> n < n'" by blast
    ultimately have "n = n'" by simp
    with n(2) n'(2) d' show "regexFirst exactDatePattern q = Some d" by simp
  qed
qed


lemma monthLoop_None:
  "monthLoop q ms i = None \<longleftrightarrow> (\<forall>j<length ms. \<not> str_includes (toLowerCase q) (ms ! j))"
proof (induction ms arbitrary: i)
  case Nil
  then show ?case by simp
next
  case (Cons m ms)
  show ?case
  proof (cases "str_includes (toLowerCase q) m")
    case True
    then have "monthLoop q (m # ms) i \<noteq> None" by (simp add: Let_def)
    moreover from True have "\<not> (\<forall>j<length (m # ms). \<not> str_includes (toLowerCase q) ((m # ms) ! j))"
      by force
    ultimately show ?thesis by blast
  next
    case False
    then have "monthLoop q (m # ms) i = monthLoop q ms (i + 1)" by simp
    moreover have "(\<forall>j<length (m # ms). \<not> str_includes (toLowerCase q) ((m # ms) ! j))
        \<longleftrightarrow> (\<forall>j<length ms. \<not> str_includes (toLowerCase q) (ms ! j))"
      using False by (auto simp: All_less_Suc2 nth_Cons')
    ultimately show ?thesis using Cons.IH by simp
  qed
qed

lemma monthLoop_Some:
  "monthLoop q ms i = Some f \<Longrightarrow>
     \<exists>j<length ms. str_includes (toLowerCase q) (ms ! j)
       \<and> (\<forall>j'<j. \<not> str_includes (toLowerCase q) (ms ! j'))
       \<and> f = (''month'', JNum (real (i + j + 1))) #
               (case yearMatch None q of
                  Some y \<Rightarrow> [(''year'', JNum (real (parseInt y)))]
                | None \<Rightarrow> [])"
proof (induction ms arbitrary: i)
  case Nil
  then show ?case by simp
next
  case (Cons m ms)
  show ?case
  proof (cases "str_includes (toLowerCase q) m")
    case True
    with Cons.prems have "f = (''month'', JNum (real (i + 0 + 1))) #
               (case yearMatch None q of
                  Some y \<Rightarrow> [(''year'', JNum (real (parseInt y)))]
                | None \<Rightarrow> [])"
      by (auto simp: Let_def split: option.splits)
    with True have "0 < length (m # ms) \<and> str_includes (toLowerCase q) ((m # ms) ! 0)
       \<and> (\<forall>j'<0. \<not> str_includes (toLowerCase q) ((m # ms) ! j'))
       \<and> f = (''month'', JNum (real (i + 0 + 1))) #
               (case yearMatch None q of
                  Some y \<Rightarrow> [(''year'', JNum (real (parseInt y)))]
                | None \<Rightarrow> [])" by simp
    then show ?thesis by blast
  next
    case False
    with Cons.prems have "monthLoop q ms (i + 1) = Some f" by simp
    from Cons.IH [OF this] obtain j where j: "j < length ms"
      "str_includes (toLowerCase q) (ms ! j)"
      "\<forall>j'<j. \<not> str_includes (toLowerCase q) (ms ! j')"
      "f = (''month'', JNum (real (i + 1 + j + 1))) #
               (case yearMatch None q of
                  Some y \<Rightarrow> [(''year'', JNum (real (parseInt y)))]
                | None \<Rightarrow> [])" by blast
    have "\<forall>j'<Suc j. \<not> str_includes (toLowerCase q) ((m # ms) ! j')"
      using False j(3) by (auto simp: All_less_Suc2)
    moreover have "i + 1 + j + 1 = i + Suc j + 1" by simp
    ultimately have "Suc j < length (m # ms) \<and> str_includes (toLowerCase q) ((m # ms) ! Suc j)
       \<and> (\<forall>j'<Suc j. \<not> str_includes (toLowerCase q) ((m # ms) ! j'))
       \<and> f = (''month'', JNum (real (i + Suc j + 1))) #
               (case yearMatch None q of
                  Some y \<Rightarrow> [(''year'', JNum (real (parseInt y)))]
                | None \<Rightarrow> [])" using j by simp
    then show ?thesis by blast
  qed
qed

lemma hasMonth_iff: "hasMonth q \<longleftrightarrow> monthLoop q monthNames 0 \<noteq> None"
  unfolding hasMonth_def monthLoop_None by blast


lemma firstMonth_unique: "firstMonth q i \<Longrightarrow> firstMonth q j \<Longrightarrow> i = j"
  unfolding firstMonth_def by (meson linorder_neqE_nat)

lemma list_ex_nth: "list_ex P xs \<longleftrightarrow> (\<exists>j<length xs. P (xs ! j))"
  unfolding list_ex_iff by (metis in_set_conv_nth)

lemma firstMonth_code:
  "firstMonth q i \<longleftrightarrow>
     i < length monthNames \<and> str_includes (toLowerCase q) (monthNames ! i)
     \<and> \<not> list_ex (str_includes (toLowerCase q)) (take i monthNames)"
proof -
  have "list_ex (str_includes (toLowerCase q)) (take i monthNames)
      \<longleftrightarrow> (\<exists>j<i. str_includes (toLowerCase q) (monthNames ! j))"
    if "i < length monthNames"
  proof -
    from that have "length (take i monthNames) = i" by simp
    then show ?thesis unfolding list_ex_nth by auto
  qed
  then show ?thesis unfolding firstMonth_def by blast
qed

lemma hasMonth_code: "hasMonth q \<longleftrightarrow> list_ex (str_includes (toLowerCase q)) monthNames"
  unfolding hasMonth_def list_ex_nth by blast

section \<open>Priority of the date categories\<close>

text \<open>
  C7. A query that contains an ISO date gets exactly its first ISO date as \<open>date_str\<close> and
  nothing else. Without an ISO date, a query with \<open>yesterday\<close> or \<open>today\<close> gets that
  day as \<open>date_str\<close> only; without these, a query with \<open>last week\<close> gets the range only;
  without these, a query with a month name gets the number of the first such name of the
  list as \<open>month\<close>, together with the first year of the query as \<open>year\<close> when it has one;
  without these, a query with a year gets \<open>year\<close> only; and a query with none of them
  gets \<open>null\<close>. So one category is extracted, the first in this order.
\<close>

theorem extractDateFilters_priority:
  "(hasIsoDate q \<longrightarrow>
      (\<exists>d. firstIsoDate q d \<and> extractDateFilters clk q = Some [(''date_str'', JStr d)]))
   \<and> (\<not> hasIsoDate q \<and> hasRelative q \<longrightarrow>
      extractDateFilters clk q =
        Some [(''date_str'',
               JStr (if str_includes (toLowerCase q) ''yesterday'' then yesterday clk
                     else today clk))])
   \<and> (\<not> hasIsoDate q \<and> \<not> hasRelative q \<and> hasRange q \<longrightarrow>
      extractDateFilters clk q =
        Some [(''dateRange'',
               JObj [(''start'', JStr (lastWeekStart clk)), (''end'', JStr (today clk))])])
   \<and> (\<not> hasIsoDate q \<and> \<not> hasRelative q \<and> \<not> hasRange q \<and> hasMonth q \<longrightarrow>
      (\<exists>i. firstMonth q i
         \<and> ((\<not> hasYear q
               \<and> extractDateFilters clk q = Some [(''month'', JNum (real (i + 1)))])
            \<or> (\<exists>y. firstYear q y
                  \<and> extractDateFilters clk q =
                      Some [(''month'', JNum (real (i + 1))),
                            (''year'', JNum (real (parseInt y)))]))))
   \<and> (\<not> hasIsoDate q \<and> \<not> hasRelative q \<and> \<not> hasRange q \<and> \<not> hasMonth q \<and> hasYear q \<longrightarrow>
      (\<exists>y. firstYear q y
         \<and> extractDateFilters clk q = Some [(''year'', JNum (real (parseInt y)))]))
   \<and> (\<not> hasIsoDate q \<and> \<not> hasRelative q \<and> \<not> hasRange q \<and> \<not> hasMonth q \<and> \<not> hasYear q \<longrightarrow>
      extractDateFilters clk q = None)"
proof (intro conjI impI)
  assume "hasIsoDate q"
  then obtain d where "regexFirst exactDatePattern q = Some d"
    unfolding hasIsoDate_iff by auto
  then have "firstIsoDate q d \<and> extractDateFilters clk q = Some [(''date_str'', JStr d)]"
    by (simp add: firstIsoDate_iff extractDateFilters_def)
  then show "\<exists>d. firstIsoDate q d \<and> extractDateFilters clk q = Some [(''date_str'', JStr d)]" ..
next
  assume "\<not> hasIsoDate q \<and> hasRelative q"
  then show "extractDateFilters clk q =
        Some [(''date_str'',
               JStr (if str_includes (toLowerCase q) ''yesterday'' then yesterday clk
                     else today clk))]"
    by (auto simp: hasIsoDate_iff hasRelative_def extractDateFilters_def)
next
  assume "\<not> hasIsoDate q \<and> \<not> hasRelative q \<and> hasRange q"
  then show "extractDateFilters clk q =
        Some [(''dateRange'',
               JObj [(''start'', JStr (lastWeekStart clk)), (''end'', JStr (today clk))])]"
    by (auto simp: hasIsoDate_iff hasRelative_def hasRange_def extractDateFilters_def)
next
  assume a: "\<not> hasIsoDate q \<and> \<not> hasRelative q \<and> \<not> hasRange q \<and> hasMonth q"
  then obtain f where f: "monthLoop q monthNames 0 = Some f"
    unfolding hasMonth_iff by auto
  with a have r: "extractDateFilters clk q = Some f"
    by (auto simp: hasIsoDate_iff hasRelative_def hasRange_def extractDateFilters_def)
  from monthLoop_Some [OF f] obtain i where i: "firstMonth q i"
    "f = (''month'', JNum (real (0 + i + 1))) #
           (case yearMatch None q of
              Some y \<Rightarrow> [(''year'', JNum (real (parseInt y)))]
            | None \<Rightarrow> [])"
    unfolding firstMonth_def by blast
  have "(\<not> hasYear q \<and> extractDateFilters clk q = Some [(''month'', JNum (real (i + 1)))])
      \<or> (\<exists>y. firstYear q y
            \<and> extractDateFilters clk q =
                Some [(''month'', JNum (real (i + 1))), (''year'', JNum (real (parseInt y)))])"
    using i(2) r by (cases "yearMatch None q") (simp_all add: hasYear_iff firstYear_iff)
  with i(1) show "\<exists>i. firstMonth q i
         \<and> ((\<not> hasYear q
               \<and> extractDateFilters clk q = Some [(''month'', JNum (real (i + 1)))])
            \<or> (\<exists>y. firstYear q y
                  \<and> extractDateFilters clk q =
                      Some [(''month'', JNum (real (i + 1))),
                            (''year'', JNum (real (parseInt y)))]))" by blast
next
  assume a: "\<not> hasIsoDate q \<and> \<not> hasRelative q \<and> \<not> hasRange q \<and> \<not> hasMonth q \<and> hasYear q"
  then obtain y where "yearMatch None q = Some y" unfolding hasYear_iff by auto
  with a have "firstYear q y
         \<and> extractDateFilters clk q = Some [(''year'', JNum (real (parseInt y)))]"
    by (auto simp: hasIsoDate_iff hasRelative_def hasRange_def hasMonth_iff firstYear_iff
        extractDateFilters_def)
  then show "\<exists>y. firstYear q y
         \<and> extractDateFilters clk q = Some [(''year'', JNum (real (parseInt y)))]" ..
next
  assume "\<not> hasIsoDate q \<and> \<not> hasRelative q \<and> \<not> hasRange q \<and> \<not> hasMonth q \<and> \<not> hasYear q"
  then show "extractDateFilters clk q = None"
    by (auto simp: hasIsoDate_iff hasRelative_def hasRange_def hasMonth_iff hasYear_iff
        extractDateFilters_def)
qed

theorem extractDateFilters_priority_witness:
  "extractDateFilters sampleClock
     ''failures from 2023-05-15 yesterday'' = Some [(''date_str'', JStr ''2023-05-15'')]
   \<and> extractDateFilters sampleClock
     ''errors Yesterday in march'' = Some [(''date_str'', JStr ''2024-03-09'')]
   \<and> extractDateFilters sampleClock
     ''errors last week in May 2023'' =
       Some [(''dateRange'', JObj [(''start'', JStr ''2024-03-03''), (''end'', JStr ''2024-03-10'')])]
   \<and> extractDateFilters sampleClock
     ''tasks in March 2023'' = Some [(''month'', JNum 3), (''year'', JNum 2023)]
   \<and> extractDateFilters sampleClock
     ''errors in 2024'' = Some [(''year'', JNum 2024)]
   \<and> extractDateFilters sampleClock
     ''hello'' = None"
proof -
  note P = extractDateFilters_priority [where clk = sampleClock]
  have c1: "extractDateFilters sampleClock ''failures from 2023-05-15 yesterday''
      = Some [(''date_str'', JStr ''2023-05-15'')]"
  proof -
    have r: "regexFirst exactDatePattern ''failures from 2023-05-15 yesterday'' = Some ''2023-05-15''"
      by code_simp
    then have "hasIsoDate ''failures from 2023-05-15 yesterday''" by (simp add: hasIsoDate_iff)
    with P [of "''failures from 2023-05-15 yesterday''"] obtain d where
      "firstIsoDate ''failures from 2023-05-15 yesterday'' d"
      "extractDateFilters sampleClock ''failures from 2023-05-15 yesterday'' = Some [(''date_str'', JStr d)]"
      by blast
    with r show ?thesis by (simp add: firstIsoDate_iff)
  qed
  have c2: "extractDateFilters sampleClock ''errors Yesterday in march'' = Some [(''date_str'', JStr ''2024-03-09'')]"
  proof -
    have "regexFirst exactDatePattern ''errors Yesterday in march'' = None" by code_simp
    then have h1: "\<not> hasIsoDate ''errors Yesterday in march''" by (simp add: hasIsoDate_iff)
    have h2: "str_includes (toLowerCase ''errors Yesterday in march'') ''yesterday''" by code_simp
    then have "hasRelative ''errors Yesterday in march''" by (simp add: hasRelative_def)
    with h1 h2 P [of "''errors Yesterday in march''"] show ?thesis
      by (simp add: sampleClock_def)
  qed
  have c3: "extractDateFilters sampleClock ''errors last week in May 2023'' =
       Some [(''dateRange'', JObj [(''start'', JStr ''2024-03-03''), (''end'', JStr ''2024-03-10'')])]"
  proof -
    have "regexFirst exactDatePattern ''errors last week in May 2023'' = None" by code_simp
    then have h1: "\<not> hasIsoDate ''errors last week in May 2023''" by (simp add: hasIsoDate_iff)
    have "\<not> str_includes (toLowerCase ''errors last week in May 2023'') ''yesterday''"
      "\<not> str_includes (toLowerCase ''errors last week in May 2023'') ''today''" by code_simp+
    then have h2: "\<not> hasRelative ''errors last week in May 2023''" by (simp add: hasRelative_def)
    have "str_includes (toLowerCase ''errors last week in May 2023'') ''last week''" by code_simp
    then have h3: "hasRange ''errors last week in May 2023''" by (simp add: hasRange_def)
    from h1 h2 h3 P [of "''errors last week in May 2023''"] show ?thesis
      by (simp add: sampleClock_def)
  qed
  have c4: "extractDateFilters sampleClock ''tasks in March 2023'' = Some [(''month'', JNum 3), (''year'', JNum 2023)]"
  proof -
    have "regexFirst exactDatePattern ''tasks in March 2023'' = None" by code_simp
    then have h1: "\<not> hasIsoDate ''tasks in March 2023''" by (simp add: hasIsoDate_iff)
    have "\<not> str_includes (toLowerCase ''tasks in March 2023'') ''yesterday''"
      "\<not> str_includes (toLowerCase ''tasks in March 2023'') ''today''" by code_simp+
    then have h2: "\<not> hasRelative ''tasks in March 2023''" by (simp add: hasRelative_def)
    have "\<not> str_includes (toLowerCase ''tasks in March 2023'') ''last week''" by code_simp
    then have h3: "\<not> hasRange ''tasks in March 2023''" by (simp add: hasRange_def)
    have m: "firstMonth ''tasks in March 2023'' 2" unfolding firstMonth_code by code_simp
    then have h4: "hasMonth ''tasks in March 2023''" unfolding hasMonth_def firstMonth_def by blast
    have y: "yearMatch None ''tasks in March 2023'' = Some ''2023''" by code_simp
    then have h5: "hasYear ''tasks in March 2023''" by (simp add: hasYear_iff)
    have p: "parseInt ''2023'' = 2023" by code_simp
    from h1 h2 h3 h4 h5 P [of "''tasks in March 2023''"] obtain i y' where
      "firstMonth ''tasks in March 2023'' i" "firstYear ''tasks in March 2023'' y'"
      "extractDateFilters sampleClock ''tasks in March 2023'' =
         Some [(''month'', JNum (real (i + 1))), (''year'', JNum (real (parseInt y')))]"
      by blast
    moreover from this(1) m have "i = 2" by (rule firstMonth_unique)
    moreover from calculation(2) y have "y' = ''2023''" by (simp add: firstYear_iff)
    ultimately show ?thesis using p by simp
  qed
  have c5: "extractDateFilters sampleClock ''errors in 2024'' = Some [(''year'', JNum 2024)]"
  proof -
    have "regexFirst exactDatePattern ''errors in 2024'' = None" by code_simp
    then have h1: "\<not> hasIsoDate ''errors in 2024''" by (simp add: hasIsoDate_iff)
    have "\<not> str_includes (toLowerCase ''errors in 2024'') ''yesterday''"
      "\<not> str_includes (toLowerCase ''errors in 2024'') ''today''" by code_simp+
    then have h2: "\<not> hasRelative ''errors in 2024''" by (simp add: hasRelative_def)
    have "\<not> str_includes (toLowerCase ''errors in 2024'') ''last week''" by code_simp
    then have h3: "\<not> hasRange ''errors in 2024''" by (simp add: hasRange_def)
    have "\<not> list_ex (str_includes (toLowerCase ''errors in 2024'')) monthNames" by code_simp
    then have h4: "\<not> hasMonth ''errors in 2024''" by (simp add: hasMonth_code)
    have y: "yearMatch None ''errors in 2024'' = Some ''2024''" by code_simp
    then have h5: "hasYear ''errors in 2024''" by (simp add: hasYear_iff)
    have p: "parseInt ''2024'' = 2024" by code_simp
    from h1 h2 h3 h4 h5 P [of "''errors in 2024''"] obtain y' where
      "firstYear ''errors in 2024'' y'"
      "extractDateFilters sampleClock ''errors in 2024'' = Some [(''year'', JNum (real (parseInt y')))]"
      by blast
    moreover from this(1) y have "y' = ''2024''" by (simp add: firstYear_iff)
    ultimately show ?thesis using p by simp
  qed
  have c6: "extractDateFilters sampleClock ''hello'' = None"
  proof -
    have "regexFirst exactDatePattern ''hello'' = None" by code_simp
    then have h1: "\<not> hasIsoDate ''hello''" by (simp add: hasIsoDate_iff)
    have "\<not> str_includes (toLowerCase ''hello'') ''yesterday''"
      "\<not> str_includes (toLowerCase ''hello'') ''today''" by code_simp+
    then have h2: "\<not> hasRelative ''hello''" by (simp add: hasRelative_def)
    have "\<not> str_includes (toLowerCase ''hello'') ''last week''" by code_simp
    then have h3: "\<not> hasRange ''hello''" by (simp add: hasRange_def)
    have "\<not> list_ex (str_includes (toLowerCase ''hello'')) monthNames" by code_simp
    then have h4: "\<not> hasMonth ''hello''" by (simp add: hasMonth_code)
    have "yearMatch None ''hello'' = None" by code_simp
    then have h5: "\<not> hasYear ''hello''" by (simp add: hasYear_iff)
    from h1 h2 h3 h4 h5 P [of "''hello''"] show ?thesis by simp
  qed
  from c1 c2 c3 c4 c5 c6 show ?thesis by (intro conjI)
qed


section \<open>The stages' shared shape\<close>

lemma emitWithFallback_Inl: "fst (emitWithFallback emit (Inl e) fb) = [fb e]"
  by (simp add: emitWithFallback_def)

lemma emitWithFallback_emit_fails:
  "emit ev = Some e \<Longrightarrow> fst (emitWithFallback emit (Inr ev) fb) = [ev, fb e]"
  by (simp add: emitWithFallback_def)

lemma emitWithFallback_ok:
  "emit ev = None \<Longrightarrow> emitWithFallback emit (Inr ev) fb = ([ev], None)"
  by (simp add: emitWithFallback_def)

lemma emitWithFallback_all:
  assumes "\<And>ev. body = Inr ev \<Longrightarrow> P ev" and "\<And>e. P (fb e)"
  shows "\<forall>ev \<in> set (fst (emitWithFallback emit body fb)). P ev"
  using assms unfolding emitWithFallback_def by (auto split: sum.splits option.splits)

lemma emitWithFallback_not_empty: "fst (emitWithFallback emit body fb) \<noteq> []"
  unfolding emitWithFallback_def by (auto split: sum.splits option.splits)

lemma bind_Inl: "bind (Inl e) f = Inl e"
  by (simp add: bind_def)

lemma bind_Inr: "bind (Inr v) f = f v"
  by (simp add: bind_def)

lemma bind_eq_Inr: "bind m f = Inr r \<longleftrightarrow> (\<exists>v. m = Inr v \<and> f v = Inr r)"
  by (cases m) (simp_all add: bind_def)

section \<open>Errors in the Retrieve stage\<close>

lemma retrievalHandler_Inl:
  "retrieveContext env tr inp = Inl e \<Longrightarrow>
     fst (retrievalHandler env tr inp) = [contextFallbackEvent inp]"
  by (simp add: retrievalHandler_def bind_Inl emitWithFallback_Inl)

lemma retrievalHandler_emit_fails:
  "retrieveContext env tr inp = Inr c \<Longrightarrow>
   retrieval_emit env (contextRetrievedEvent inp c) = Some e \<Longrightarrow>
     fst (retrievalHandler env tr inp) = [contextRetrievedEvent inp c, contextFallbackEvent inp]"
  by (simp add: retrievalHandler_def bind_Inr emitWithFallback_emit_fails)

lemma retrievalHandler_outcome:
  "retrieveContext env tr inp = Inl e \<Longrightarrow>
     snd (retrievalHandler env tr inp) = retrieval_emit env (contextFallbackEvent inp)"
  by (simp add: retrievalHandler_def bind_Inl emitWithFallback_def)

lemma retrieveContext_embedding_fails:
  "embeddings_create env (processedMessage inp) = Inl e \<Longrightarrow> retrieveContext env tr inp = Inl e"
  by (simp add: retrieveContext_def generateEmbedding_def bind_Inl)

text \<open>
  C2. When the \<open>try\<close> block of the Retrieve stage raises an error before its \<open>emit\<close>, the
  handler calls \<open>emit\<close> once, with the fallback object, and ends without an error when that
  call does; when the \<open>emit\<close> of the \<open>try\<close> block itself throws, the fallback object is
  emitted after it. A failing embedding call is such an error. The fallback object goes to the topic \<open>context-retrieved\<close>, its
  context is the empty list, and it carries the message fields and the flow id of the
  input.
\<close>

theorem retrievalHandler_error_fallback:
  "(retrieveContext env tr inp = Inl e \<longrightarrow>
      fst (retrievalHandler env tr inp) = [contextFallbackEvent inp])
   \<and> (retrieveContext env tr inp = Inr c
        \<and> retrieval_emit env (contextRetrievedEvent inp c) = Some e \<longrightarrow>
      fst (retrievalHandler env tr inp)
        = [contextRetrievedEvent inp c, contextFallbackEvent inp])
   \<and> (retrieveContext env tr inp = Inl e
        \<and> retrieval_emit env (contextFallbackEvent inp) = None \<longrightarrow>
      snd (retrievalHandler env tr inp) = None)
   \<and> (embeddings_create env (processedMessage inp) = Inl e \<longrightarrow>
        retrieveContext env tr inp = Inl e)
   \<and> topic (contextFallbackEvent inp) = ''context-retrieved''
   \<and> context_items (data (contextFallbackEvent inp)) = Some []
   \<and> originalMessage (data (contextFallbackEvent inp)) = originalMessage inp
   \<and> processedMessage (data (contextFallbackEvent inp)) = processedMessage inp
   \<and> handidFlowId (data (contextFallbackEvent inp)) = handidFlowId inp"
  using retrievalHandler_Inl [of env tr inp e] retrievalHandler_emit_fails [of env tr inp c e]
    retrieveContext_embedding_fails [of env inp e tr] retrievalHandler_outcome [of env tr inp e]
  by (simp add: contextFallbackEvent_def)

theorem retrievalHandler_error_fallback_witness:
  "fst (retrievalHandler embeddingDown plainTracer samplePayload)
     = [contextFallbackEvent samplePayload]
   \<and> snd (retrievalHandler embeddingDown plainTracer samplePayload) = None
   \<and> topic (contextFallbackEvent samplePayload) = ''context-retrieved''
   \<and> context_items (data (contextFallbackEvent samplePayload)) = Some []
   \<and> handidFlowId (data (contextFallbackEvent samplePayload)) = Some ''flow-1''"
proof -
  have e: "embeddings_create embeddingDown (processedMessage samplePayload)
      = Inl (Error ''embedding provider unavailable'')"
    by (simp add: embeddingDown_def)
  have ok: "retrieval_emit embeddingDown (contextFallbackEvent samplePayload) = None"
    by (simp add: embeddingDown_def emitOk_def)
  have f: "handidFlowId samplePayload = Some ''flow-1''"
    by (simp add: samplePayload_def)
  from retrievalHandler_error_fallback
    [of embeddingDown plainTracer samplePayload "Error ''embedding provider unavailable''"]
    e ok f
  show ?thesis by simp
qed

section \<open>Mapping a match to a context item\<close>

lemma toContextItem_object:
  "match_metadata m = JObj ob \<Longrightarrow>
     toContextItem m =
       Inr \<lparr>item_input = obj_get ob ''input'', item_output = obj_get ob ''output'',
            item_created_at = obj_get ob ''created_at'', item_score = match_score m,
            item_problem = obj_get ob ''problem'', item_solution = obj_get ob ''solution'',
            item_type = obj_get ob ''type''\<rparr>"
  by (simp add: toContextItem_def bind_Inr)

lemma obj_get_missing: "k \<notin> set (object_keys ob) \<Longrightarrow> obj_get ob k = JUndefined"
  by (simp add: obj_get_def object_keys_def map_of_eq_None_iff [THEN iffD2])

lemma mapMatches_objects:
  "list_all (\<lambda>m. \<exists>ob. match_metadata m = JObj ob) ms \<Longrightarrow>
     \<exists>items. mapMatches ms = Inr items \<and> length items = length ms"
proof (induction ms)
  case Nil
  then show ?case by simp
next
  case (Cons m ms)
  then obtain ob items where "match_metadata m = JObj ob" "mapMatches ms = Inr items"
    "length items = length ms" by auto
  then show ?case by (simp add: toContextItem_object bind_Inr)
qed

text \<open>
  What the mapping does in general: a match whose metadata is an object is mapped without
  an error, each field being the metadata's property of that name, and a property that
  the metadata does not have is read as \<open>undefined\<close>.
\<close>

lemma toContextItem_fields:
  "(match_metadata m = JObj ob \<longrightarrow>
      toContextItem m =
        Inr \<lparr>item_input = obj_get ob ''input'', item_output = obj_get ob ''output'',
             item_created_at = obj_get ob ''created_at'', item_score = match_score m,
             item_problem = obj_get ob ''problem'', item_solution = obj_get ob ''solution'',
             item_type = obj_get ob ''type''\<rparr>)
   \<and> (k \<notin> set (object_keys ob) \<longrightarrow> obj_get ob k = JUndefined)"
  using toContextItem_object [of m ob] obj_get_missing [of k ob] by blast

text \<open>
  A match without metadata: reading \<open>metadata.input\<close> throws, the mapping of the whole list
  fails, and the stage emits its fallback object with the empty context, the items of the
  other matches included in the loss.
\<close>

lemma toContextItem_bare_match:
  "toContextItem bareMatch = Inl (cannotRead ''undefined'' ''input'')"
  by (simp add: toContextItem_def bareMatch_def bind_def)

lemma mapMatches_error:
  "toContextItem m = Inl e \<Longrightarrow> m \<in> set ms \<Longrightarrow> \<exists>e'. mapMatches ms = Inl e'"
proof (induction ms)
  case Nil
  then show ?case by simp
next
  case (Cons x xs)
  show ?case
  proof (cases "toContextItem x")
    case (Inl e')
    then show ?thesis by (simp add: bind_Inl)
  next
    case (Inr item)
    with Cons.prems have "m \<in> set xs" by auto
    with Cons.IH Cons.prems(1) obtain e' where "mapMatches xs = Inl e'" by blast
    with Inr show ?thesis by (simp add: bind_Inr bind_Inl)
  qed
qed

lemma retrievalHandler_bare_match:
  "fst (retrievalHandler storeWithBareMatch plainTracer samplePayload)
     = [contextFallbackEvent samplePayload]"
proof -
  have "retrieveContext storeWithBareMatch plainTracer samplePayload
      = Inl (cannotRead ''undefined'' ''input'')"
    by (simp add: retrieveContext_def generateEmbedding_def storeWithBareMatch_def
        traceWithHandit_def plainTracer_def bind_def toContextItem_def insightMatch_def
        bareMatch_def)
  then show ?thesis by (rule retrievalHandler_Inl)
qed

text \<open>
  C8. A metadata field that is missing is to come out as the empty string. The store
  returns an insight, whose metadata has \<open>type\<close>, \<open>problem\<close> and \<open>solution\<close> and no \<open>input\<close>,
  \<open>output\<close> or \<open>created_at\<close>. The mapping reads \<open>metadata.input\<close>, \<open>metadata.output\<close> and
  \<open>metadata.created_at\<close> with no default, so these three fields of the context item are
  \<open>undefined\<close>, which is not the empty string.
\<close>

theorem toContextItem_insight_undefined:
  "toContextItem insightMatch
   = Inr \<lparr>item_input = JUndefined, item_output = JUndefined, item_created_at = JUndefined,
          item_score = JNum 0.5, item_problem = JStr ''slow answers'',
          item_solution = JStr ''cache the index'', item_type = JStr ''insight''\<rparr>
   \<and> JUndefined \<noteq> JStr ''''"
  by (simp add: toContextItem_def bind_def obj_get_def insightMatch_def)

section \<open>The Generate stage\<close>

lemma generateResponse_first_choice:
  "generation_create env contextText promptText = Inr r \<Longrightarrow> choices r = c # cs \<Longrightarrow>
     generateResponse env (promptText, contextText) =
       Inr (case choice_message c of
              None \<Rightarrow> couldNotGenerate
            | Some m \<Rightarrow>
                (case content m of
                   None \<Rightarrow> couldNotGenerate
                 | Some s \<Rightarrow> if s \<noteq> [] then s else couldNotGenerate))"
  by (simp add: generateResponse_def bind_Inr)

lemma generateResponse_no_choices:
  "generation_create env contextText promptText = Inr r \<Longrightarrow> choices r = [] \<Longrightarrow>
     generateResponse env (promptText, contextText) =
       Inl (cannotRead ''undefined'' ''message'')"
  by (simp add: generateResponse_def bind_Inr)

lemma generationHandler_always_emits:
  "fst (generationHandler env tr inp) \<noteq> []
   \<and> (\<forall>ev \<in> set (fst (generationHandler env tr inp)). topic ev = ''response-generated'')"
proof -
  have "\<forall>ev \<in> set (fst (generationHandler env tr inp)). topic ev = ''response-generated''"
    unfolding generationHandler_def
    by (rule emitWithFallback_all)
      (auto simp: bind_eq_Inr responseGeneratedEvent_def responseFallbackEvent_def)
  then show ?thesis
    by (simp add: generationHandler_def emitWithFallback_not_empty)
qed

text \<open>
  C3. The provider answers with an empty list of choices. \<open>generateResponse\<close> reads
  \<open>response.choices[0].message\<close>, which throws; the handler's \<open>catch\<close> block emits the
  error apology together with the error's message, where a successful result with the
  string for a missing content was to be emitted and no error recorded.
\<close>

theorem generationHandler_empty_choices:
  "generationHandler emptyChoices plainTracer samplePayload
   = ([\<lparr>topic = ''response-generated'',
        data = \<lparr>originalMessage = '' show errors'', processedMessage = ''show errors'',
                timestamp = ''t0'', dateFilters = JUndefined, metadataFilters = JUndefined,
                context_items = None,
                response = Some ''I apologize, but I encountered an error while generating a response. Please try again later.'',
                error = Some ''Cannot read properties of undefined (reading 'message')'',
                handidFlowId = Some ''flow-1''\<rparr>\<rparr>], None)"
  by (simp add: generationHandler_def generateAnswer_def formatContext_def traceWithHandit_def
      plainTracer_def generateResponse_def bind_def emitWithFallback_def
      responseFallbackEvent_def fallbackResponse_def errorText_def cannotRead_def
      emptyChoices_def samplePayload_def emitOk_def)

section \<open>The correlation id\<close>

text \<open>
  C4. Every object that the ExtractFilters, Retrieve and Generate stages hand to \<open>emit\<close>,
  in the \<open>try\<close> block or in the \<open>catch\<close> block, carries the flow id of the stage's input
  (none if the input has none), whatever the providers and the tracing library do. The
  Preprocess stage, whose input has no flow id, puts the id it generates on both. Each of
  these stages calls \<open>emit\<close> at least once.
\<close>

theorem flowId_propagated:
  "(\<forall>ev \<in> set (fst (extractionHandler xenv prompt xtr inp)).
       handidFlowId (data ev) = handidFlowId inp)
   \<and> (\<forall>ev \<in> set (fst (retrievalHandler renv rtr inp)).
       handidFlowId (data ev) = handidFlowId inp)
   \<and> (\<forall>ev \<in> set (fst (generationHandler genv gtr inp)).
       handidFlowId (data ev) = handidFlowId inp)
   \<and> (\<forall>ev \<in> set (fst (preprocessHandler penv ptr minp)).
       handidFlowId (data ev) = Some (newFlowId penv))
   \<and> fst (extractionHandler xenv prompt xtr inp) \<noteq> []
   \<and> fst (retrievalHandler renv rtr inp) \<noteq> []
   \<and> fst (generationHandler genv gtr inp) \<noteq> []
   \<and> fst (preprocessHandler penv ptr minp) \<noteq> []"
proof -
  have x: "\<forall>ev \<in> set (fst (extractionHandler xenv prompt xtr inp)).
       handidFlowId (data ev) = handidFlowId inp"
    unfolding extractionHandler_def Let_def
    by (rule emitWithFallback_all) (auto simp: bind_eq_Inr)
  have r: "\<forall>ev \<in> set (fst (retrievalHandler renv rtr inp)).
       handidFlowId (data ev) = handidFlowId inp"
    unfolding retrievalHandler_def
    by (rule emitWithFallback_all)
      (auto simp: bind_eq_Inr contextRetrievedEvent_def contextFallbackEvent_def)
  have g: "\<forall>ev \<in> set (fst (generationHandler genv gtr inp)).
       handidFlowId (data ev) = handidFlowId inp"
    unfolding generationHandler_def
    by (rule emitWithFallback_all)
      (auto simp: bind_eq_Inr responseGeneratedEvent_def responseFallbackEvent_def)
  have p: "\<forall>ev \<in> set (fst (preprocessHandler penv ptr minp)).
       handidFlowId (data ev) = Some (newFlowId penv)"
    unfolding preprocessHandler_def Let_def
    by (rule emitWithFallback_all) (auto simp: bind_eq_Inr)
  from x r g p show ?thesis
    by (simp add: extractionHandler_def retrievalHandler_def generationHandler_def
        preprocessHandler_def Let_def emitWithFallback_not_empty)
qed

theorem flowId_propagated_witness:
  "list_all (\<lambda>ev. handidFlowId (data ev) = Some ''flow-1'')
     (fst (extractionHandler rewritingLLM ''prompt'' plainTracer samplePayload))
   \<and> list_all (\<lambda>ev. handidFlowId (data ev) = Some ''flow-1'')
     (fst (retrievalHandler embeddingDown plainTracer samplePayload))
   \<and> list_all (\<lambda>ev. handidFlowId (data ev) = Some ''flow-1'')
     (fst (generationHandler helloAnswer plainTracer samplePayload))
   \<and> list_all (\<lambda>ev. handidFlowId (data ev) = Some ''flow-7'')
     (fst (preprocessHandler samplePreprocess plainTracer sampleMessage))"
proof -
  have "handidFlowId samplePayload = Some ''flow-1''" by (simp add: samplePayload_def)
  moreover have "newFlowId samplePreprocess = ''flow-7''" by (simp add: samplePreprocess_def)
  ultimately show ?thesis
    using flowId_propagated
      [of rewritingLLM "''prompt''" plainTracer samplePayload embeddingDown plainTracer
          helloAnswer plainTracer samplePreprocess plainTracer sampleMessage]
    by (simp add: list_all_iff)
qed

section \<open>The query sent on to the Retrieve stage\<close>

lemma setExtractedQuery_query:
  "setExtractedQuery answer msg = Inr r \<Longrightarrow> extractedQuery r = msg"
  by (auto simp: setExtractedQuery_def split: jsval.splits)

lemma parseAnswer_query: "extractedQuery (parseAnswer env msg text) = msg"
  unfolding parseAnswer_def
  by (auto simp: filterFallback_def bind_eq_Inr dest: setExtractedQuery_query split: sum.splits)

lemma choices_query:
  "(case chs of
      [] \<Rightarrow> Inr (filterFallback msg)
    | c # cs \<Rightarrow>
        (case choice_message c of
           None \<Rightarrow> Inr (filterFallback msg)
         | Some m \<Rightarrow> Inr (parseAnswer env msg (g m)))) = (Inr r :: js_error + filter_response)
   \<Longrightarrow> extractedQuery r = msg"
  by (auto simp: filterFallback_def parseAnswer_query split: list.splits option.splits)

lemma extractFilters_query:
  assumes "extractFilters env (msg, prompt) = Inr r"
  shows "extractedQuery r = msg"
proof -
  from assms have "\<exists>rsp. extraction_create env prompt
           (''Extract filters from this query: '' @ [CHR 0x22] @ msg @ [CHR 0x22]) = Inr rsp \<and>
    (case choices rsp of
        [] \<Rightarrow> Inr (filterFallback msg)
      | c # cs \<Rightarrow>
          (case choice_message c of
             None \<Rightarrow> Inr (filterFallback msg)
           | Some m \<Rightarrow>
               Inr (parseAnswer env msg
                      (case content m of
                         Some s \<Rightarrow> if s \<noteq> [] then s else ''{}''
                       | None \<Rightarrow> ''{}'')))) = (Inr r :: js_error + filter_response)"
    by (simp only: extractFilters_def prod.case bind_eq_Inr)
  then show ?thesis by (elim exE conjE) (erule choices_query)
qed

text \<open>
  C10. Whatever the provider answers and whatever the answer parses to, a value that
  \<open>extractFilters\<close> returns has the input message as its \<open>extractedQuery\<close>: the property of
  the parsed answer is overwritten, and the fallbacks are built with the message. With a
  tracing library that hands back only what the callback returned, every object that the
  stage emits goes to \<open>fetch-context\<close> with the \<open>processedMessage\<close> of the stage's input.
\<close>

theorem extraction_query_unchanged:
  "(extractFilters env (msg, prompt) = Inr r \<longrightarrow> extractedQuery r = msg)
   \<and> (faithfulTracer tr \<longrightarrow>
        (\<forall>ev \<in> set (fst (extractionHandler env prompt tr inp)).
           topic ev = ''fetch-context''
           \<and> processedMessage (data ev) = processedMessage inp))"
proof (intro conjI impI)
  assume "extractFilters env (msg, prompt) = Inr r"
  then show "extractedQuery r = msg" by (rule extractFilters_query)
next
  assume f: "faithfulTracer tr"
  have q: "extractedQuery r' = processedMessage inp"
    if "traceWithHandit tr llmFiltersExtractionNode (handidFlowId inp) (extractFilters env)
          (processedMessage inp, prompt) = Inr r'" for r'
  proof -
    from that f have "extractFilters env (processedMessage inp, prompt) = Inr r'"
      unfolding traceWithHandit_def faithfulTracer_def by blast
    then show ?thesis by (rule extractFilters_query)
  qed
  show "\<forall>ev \<in> set (fst (extractionHandler env prompt tr inp)).
           topic ev = ''fetch-context''
           \<and> processedMessage (data ev) = processedMessage inp"
    unfolding extractionHandler_def Let_def
    by (rule emitWithFallback_all) (auto simp: bind_eq_Inr dest: q)
qed

lemma plainTracer_faithful: "faithfulTracer plainTracer"
  by (simp add: faithfulTracer_def plainTracer_def)

theorem extraction_query_unchanged_witness:
  "list_all (\<lambda>ev. topic ev = ''fetch-context'' \<and> processedMessage (data ev) = ''show errors'')
     (fst (extractionHandler rewritingLLM ''prompt'' plainTracer samplePayload))"
proof -
  have "processedMessage samplePayload = ''show errors''" by (simp add: samplePayload_def)
  with extraction_query_unchanged [of rewritingLLM _ "''prompt''" _ plainTracer samplePayload]
    plainTracer_faithful
  have "\<forall>ev \<in> set (fst (extractionHandler rewritingLLM ''prompt'' plainTracer samplePayload)).
           topic ev = ''fetch-context'' \<and> processedMessage (data ev) = ''show errors''"
    by metis
  then show ?thesis by (simp add: list_all_iff)
qed

section \<open>Closing the trace session\<close>

text \<open>
  C9 (as the code has it). Closing a session never ends with an error: a failure of the
  library call is written to the console and not passed on. Without a flow id, or with
  the empty string, nothing happens. With a flow id, every call writes the line that
  announces the closing and sends one request to the tracing backend, the second call for
  the same id as much as the first. The Complete stage never ends with an error either.
\<close>

theorem endAgentTracingHandit_total:
  "snd (endAgentTracingHandit endAgentTracing flowId st) = None
   \<and> (flowId = None \<or> flowId = Some [] \<longrightarrow>
        fst (endAgentTracingHandit endAgentTracing flowId st) = st)
   \<and> (flowId = Some f \<and> f \<noteq> [] \<longrightarrow>
        endRequests (fst (endAgentTracingHandit endAgentTracing flowId st))
          = endRequests st @ [f]
        \<and> console (fst (endAgentTracingHandit endAgentTracing flowId st))
          = console st @ [''[Handit] Ending tracing session for flow: '' @ f]
              @ (case endAgentTracing (endRequests st) f of
                   None \<Rightarrow> []
                 | Some e \<Rightarrow> [''[Handit] Error ending tracing session for flow '' @ f @ '':'']))
   \<and> snd (completionHandler endAgentTracing inp st) = None"
  by (auto simp: endAgentTracingHandit_def completionHandler_def Let_def
      split: option.splits prod.splits)

theorem endAgentTracingHandit_total_witness:
  "endAgentTracingHandit backendDown (Some ''flow-1'') noTracing
   = (\<lparr>console = [''[Handit] Ending tracing session for flow: flow-1'',
                    ''[Handit] Error ending tracing session for flow flow-1:''],
       endRequests = [''flow-1'']\<rparr>, None)"
proof -
  let ?r = "endAgentTracingHandit backendDown (Some ''flow-1'') noTracing"
  from endAgentTracingHandit_total [of backendDown "Some ''flow-1''" noTracing "''flow-1''"]
  have "snd ?r = None" "endRequests (fst ?r) = [''flow-1'']"
    "console (fst ?r) = [''[Handit] Ending tracing session for flow: flow-1'',
                    ''[Handit] Error ending tracing session for flow flow-1:'']"
    by (simp_all add: backendDown_def noTracing_def)
  then show ?thesis by (cases ?r) auto
qed

text \<open>
  Closing the session \<open>flow-1\<close> twice: the second call leaves a state that differs from
  the state after the first call (a second line on the console, a second request).
\<close>

theorem endAgentTracingHandit_twice_counterexample:
  "fst (endAgentTracingHandit backendOk (Some ''flow-1'')
         (fst (endAgentTracingHandit backendOk (Some ''flow-1'') noTracing)))
   \<noteq> fst (endAgentTracingHandit backendOk (Some ''flow-1'') noTracing)
   \<and> endRequests
        (fst (endAgentTracingHandit backendOk (Some ''flow-1'')
               (fst (endAgentTracingHandit backendOk (Some ''flow-1'') noTracing))))
     = [''flow-1'', ''flow-1'']"
  by (simp add: endAgentTracingHandit_def backendOk_def noTracing_def)

section \<open>The filter-expression builders\<close>

lemma obj_set_length: "length (obj_set ob k v) > 0"
  by (cases ob) (auto split: if_splits)

lemma object_assign_empty: "object_assign t s = [] \<longleftrightarrow> t = [] \<and> s = []"
proof -
  have "foldl (\<lambda>t (k, v). obj_set t k v) t s = [] \<longleftrightarrow> t = [] \<and> s = []"
  proof (induction s arbitrary: t)
    case Nil
    then show ?case by simp
  next
    case (Cons p s)
    obtain k v where p: "p = (k, v)" by (cases p)
    have "obj_set t k v \<noteq> []" using obj_set_length [of t k v] by auto
    with Cons p show ?case by simp
  qed
  then show ?thesis by (simp add: object_assign_def)
qed

text \<open>
  The reference builder: a date range becomes the interval on \<open>date_str\<close>; the result is
  \<open>null\<close> exactly when each argument is \<open>null\<close> or an object without properties.
\<close>

lemma buildFilterExpression_range:
  "obj_get df ''dateRange'' = JObj [(''start'', JStr s), (''end'', JStr e)] \<Longrightarrow>
     buildFilterExpression (Some df) None =
       Some [(''date_str'', JObj [(''$gte'', JStr s), (''$lte'', JStr e)])]"
  by (simp add: buildFilterExpression_def js_prop_def obj_get_def object_keys_def)

lemma buildFilterExpression_None_iff:
  "buildFilterExpression df mf = None \<longleftrightarrow>
     (df = None \<or> df = Some []) \<and> (mf = None \<or> mf = Some [])"
proof -
  have "truthy (obj_get a ''dateRange'') \<Longrightarrow> a \<noteq> []" for a
    by (auto simp: obj_get_empty)
  then show ?thesis
    by (cases df; cases mf)
      (auto simp: buildFilterExpression_def Let_def object_keys_def object_assign_empty)
qed

text \<open>
  C5. The Retrieve stage's own builder reads \<open>year\<close>, \<open>month\<close>, \<open>day\<close>, \<open>date_str\<close>,
  \<open>environment\<close> and \<open>status\<close> only. Given a date range and a correctness filter it returns
  \<open>undefined\<close>, no filter, where the reference builder returns the interval on \<open>date_str\<close>
  together with \<open>is_correct\<close>.
\<close>

theorem retrievalBuildFilterExpression_drops_range:
  "retrievalBuildFilterExpression
     (JObj [(''dateRange'', JObj [(''start'', JStr ''2023-05-01''), (''end'', JStr ''2023-05-07'')])])
     (JObj [(''is_correct'', JBool False)])
   = JUndefined
   \<and> buildFilterExpression
       (Some [(''dateRange'', JObj [(''start'', JStr ''2023-05-01''), (''end'', JStr ''2023-05-07'')])])
       (Some [(''is_correct'', JBool False)])
     = Some [(''date_str'', JObj [(''$gte'', JStr ''2023-05-01''), (''$lte'', JStr ''2023-05-07'')]),
             (''is_correct'', JBool False)]"
  by (simp add: retrievalBuildFilterExpression_def copyTruthy_def js_prop_def obj_get_def
      object_keys_def buildFilterExpression_def object_assign_def)

end
